theory Spec2Isabelle
  imports Complex_Main "HOL-Library.Signed_Division" "HOL-Library.Sublist"
    "HOL-Library.Monad_Syntax"
begin

section \<open>Data model\<close>

text \<open>
  The structures of Mmg and ParMmg, restricted to the fields that the library entry
  points, the memory macros of \<^verbatim>\<open>parmmg.h\<close> and the adjacency accessors of
  \<^verbatim>\<open>debug_pmmg.c\<close> read or write. C integers are modelled as \<open>int\<close>; where the
  source computes an array index the result is checked against the range of \<^verbatim>\<open>int\<close>,
  since signed overflow has no defined result in C. A computation that stops abnormally
  (a failed assertion, a read outside an array, a null dereference, a signed overflow)
  has the value \<open>None\<close>.
\<close>

record MMG5_Info =
  lag :: int
  iso :: int
  optim :: int
  optimLES :: int
  hsiz :: real

text \<open>Both the mesh and the parmesh carry the two memory-accounting counters.\<close>

record mem =
  memMax :: int
  memCur :: int

record MMG5_Mesh = mem +
  np :: int
  na :: int
  nt :: int
  ne :: int
  npi :: int
  nai :: int
  nti :: int
  nei :: int
  nsols :: int
  adja :: "int list"
  info :: MMG5_Info

record MMG5_Sol =
  sol_np :: int
  sol_npi :: int
  sol_npmax :: int
  sol_size :: int
  sol_m :: "real list option"

record PMMG_Grp =
  mesh :: "MMG5_Mesh option"
  met :: "MMG5_Sol option"
  sol :: "MMG5_Sol list"

record PMMG_ParMesh = mem +
  myrank :: int
  imprim :: int
  ngrp :: int
  listgrp :: "PMMG_Grp list"

section \<open>Adjacency accessors\<close>

definition INT_MIN :: int where
  "INT_MIN = - (2 ^ 31)"

definition INT_MAX :: int where
  "INT_MAX = 2 ^ 31 - 1"

definition c_int :: "int \<Rightarrow> int option" where
  \<comment> \<open>the value of an \<^verbatim>\<open>int\<close> expression: undefined outside the range of the type\<close>
  "c_int x = (if INT_MIN \<le> x \<and> x \<le> INT_MAX then Some x else None)"

definition array_read :: "'a list \<Rightarrow> int \<Rightarrow> 'a option" where
  "array_read xs i = (if 0 \<le> i \<and> i < int (length xs) then Some (xs ! nat i) else None)"

definition PMMG_adja_idx_of_face :: "MMG5_Mesh \<Rightarrow> int \<Rightarrow> int \<Rightarrow> int option" where
  "PMMG_adja_idx_of_face msh element face = do {
     e1 \<leftarrow> c_int (element - 1);
     e4 \<leftarrow> c_int (4 * e1);
     e5 \<leftarrow> c_int (e4 + 1);
     location \<leftarrow> c_int (e5 + face);
     n1 \<leftarrow> c_int (ne msh - 1);
     n4 \<leftarrow> c_int (4 * n1);
     max_loc \<leftarrow> c_int (n4 + 5);
     if \<not> (face \<ge> 0 \<and> face < 4) then None
     else if \<not> (location > 0 \<and> location < max_loc) then None
     else array_read (adja msh) location
   }"

definition PMMG_adja_tetra_to_face :: "MMG5_Mesh \<Rightarrow> int \<Rightarrow> int \<Rightarrow> int option" where
  "PMMG_adja_tetra_to_face msh element face =
     (case PMMG_adja_idx_of_face msh element face of
        None \<Rightarrow> None
      | Some idx \<Rightarrow> Some (idx sdiv 4))"

definition PMMG_adja_face_to_face :: "MMG5_Mesh \<Rightarrow> int \<Rightarrow> int \<Rightarrow> int option" where
  "PMMG_adja_face_to_face msh element face =
     (case PMMG_adja_idx_of_face msh element face of
        None \<Rightarrow> None
      | Some idx \<Rightarrow> Some (idx smod 4))"

section \<open>Return codes\<close>

text \<open>
  Modelled from the spec: the header \<^verbatim>\<open>libparmmg.h\<close> that defines the return codes is not
  among the sources. The spec orders the three outcome codes by severity,
  \<open>SUCCESS < LOW_FAILURE < STRONG_FAILURE\<close>, and aggregates them with a maximum; the status
  \<open>PMMG_FAILURE\<close> of the memory macros only has to differ from \<open>PMMG_SUCCESS\<close>.
\<close>

definition PMMG_SUCCESS :: int where
  "PMMG_SUCCESS = 0"

definition PMMG_LOWFAILURE :: int where
  "PMMG_LOWFAILURE = 1"

definition PMMG_STRONGFAILURE :: int where
  "PMMG_STRONGFAILURE = 2"

definition PMMG_FAILURE :: int where
  "PMMG_FAILURE = 4"

section \<open>Memory-accounting macros\<close>

text \<open>
  The macros of \<^verbatim>\<open>parmmg.h\<close> act on any structure with the two counters, on a pointer
  variable, and on the C library's allocator. The allocator is a parameter: what
  \<^verbatim>\<open>malloc\<close>, \<^verbatim>\<open>calloc\<close> and \<^verbatim>\<open>realloc\<close> answer to a request (\<open>None\<close> is the null
  pointer). What a macro does besides updating the counter and the pointer is recorded as
  a list of events, in the order of execution: the diagnostics of \<^verbatim>\<open>ERROR_AT\<close>, the calls
  of the C library, and the execution of the caller's \<^verbatim>\<open>on_failure\<close> statement.
\<close>

type_synonym addr = nat

datatype event =
    ERROR_AT string
  | on_failure
  | sys_malloc int
  | sys_calloc int int
  | sys_realloc addr int
  | sys_free addr
  | sys_memset "addr option" int int

record libc =
  malloc :: "int \<Rightarrow> addr option"
  calloc :: "int \<Rightarrow> int \<Rightarrow> addr option"
  realloc :: "addr \<Rightarrow> int \<Rightarrow> addr option"

record 'm after =
  mesh_of :: 'm
  ptr_of :: "addr option"
  log_of :: "event list"

definition long_long :: "int \<Rightarrow> int" where
  \<comment> \<open>the value of a product with \<^verbatim>\<open>sizeof\<close>, computed in \<^verbatim>\<open>size_t\<close>, once stored in a
      \<^verbatim>\<open>long long\<close>\<close>
  "long_long x = (x + 2 ^ 63) mod 2 ^ 64 - 2 ^ 63"

definition MEM_CHK_AVAIL :: "'a mem_scheme \<Rightarrow> int \<Rightarrow> int \<times> event list" where
  "MEM_CHK_AVAIL msh bytes =
     (if memCur msh + bytes > memMax msh then
        (PMMG_FAILURE, [ERROR_AT '' Exceeded max memory allowed: ''])
      else if memCur msh + bytes < 0 then
        (PMMG_SUCCESS, [ERROR_AT '' Tried to free more mem than allocated: ''])
      else
        (PMMG_SUCCESS, []))"

definition PMMG_DEL_MEM ::
  "'a mem_scheme \<Rightarrow> addr option \<Rightarrow> int \<Rightarrow> int \<Rightarrow> 'a mem_scheme after" where
  "PMMG_DEL_MEM msh ptr siz sz =
     (let (msh1, log1) =
            (if siz \<noteq> 0 \<and> ptr \<noteq> None then
               (let size_to_free = long_long (- siz * sz);
                    (stat, log) = MEM_CHK_AVAIL msh size_to_free
                in if stat = PMMG_SUCCESS
                   then (msh\<lparr>memCur := memCur msh + size_to_free\<rparr>, log)
                   else (msh, log))
             else (msh, []))
      in case ptr of
           None \<Rightarrow> \<lparr>mesh_of = msh1, ptr_of = None, log_of = log1\<rparr>
         | Some a \<Rightarrow> \<lparr>mesh_of = msh1, ptr_of = None, log_of = log1 @ [sys_free a]\<rparr>)"

definition PMMG_MALLOC ::
  "libc \<Rightarrow> 'a mem_scheme \<Rightarrow> int \<Rightarrow> int \<Rightarrow> 'a mem_scheme after" where
  "PMMG_MALLOC lc msh siz sz =
     (if siz \<noteq> 0 then
        (let size_to_allocate = long_long (siz * sz);
             (stat, log) = MEM_CHK_AVAIL msh size_to_allocate
         in if stat = PMMG_SUCCESS then
              (case malloc lc size_to_allocate of
                 None \<Rightarrow>
                   \<lparr>mesh_of = msh, ptr_of = None,
                    log_of = log @ [sys_malloc size_to_allocate,
                                    ERROR_AT '' malloc failed: '', on_failure]\<rparr>
               | Some a \<Rightarrow>
                   \<lparr>mesh_of = msh\<lparr>memCur := memCur msh + size_to_allocate\<rparr>,
                    ptr_of = Some a,
                    log_of = log @ [sys_malloc size_to_allocate]\<rparr>)
            else
              \<lparr>mesh_of = msh, ptr_of = None, log_of = log @ [on_failure]\<rparr>)
      else \<lparr>mesh_of = msh, ptr_of = None, log_of = []\<rparr>)"

definition PMMG_CALLOC ::
  "libc \<Rightarrow> 'a mem_scheme \<Rightarrow> int \<Rightarrow> int \<Rightarrow> 'a mem_scheme after" where
  "PMMG_CALLOC lc msh siz sz =
     (if siz \<noteq> 0 then
        (let size_to_allocate = long_long (siz * sz);
             (stat, log) = MEM_CHK_AVAIL msh size_to_allocate
         in if stat = PMMG_SUCCESS then
              (case calloc lc siz sz of
                 None \<Rightarrow>
                   \<lparr>mesh_of = msh, ptr_of = None,
                    log_of = log @ [sys_calloc siz sz,
                                    ERROR_AT '' calloc failed: '', on_failure]\<rparr>
               | Some a \<Rightarrow>
                   \<lparr>mesh_of = msh\<lparr>memCur := memCur msh + size_to_allocate\<rparr>,
                    ptr_of = Some a,
                    log_of = log @ [sys_calloc siz sz]\<rparr>)
            else
              \<lparr>mesh_of = msh, ptr_of = None, log_of = log @ [on_failure]\<rparr>)
      else \<lparr>mesh_of = msh, ptr_of = None, log_of = []\<rparr>)"

text \<open>
  \<^verbatim>\<open>PMMG_REALLOC\<close> starts with an assertion, whose failure stops the program (\<open>None\<close>).
  Its last branch, the growing one, has no \<^verbatim>\<open>else\<close> after the test of \<^verbatim>\<open>stat\<close>.
\<close>

definition PMMG_REALLOC ::
  "libc \<Rightarrow> 'a mem_scheme \<Rightarrow> addr option \<Rightarrow> int \<Rightarrow> int \<Rightarrow> int
     \<Rightarrow> 'a mem_scheme after option" where
  "PMMG_REALLOC lc msh ptr newsize oldsize sz =
     (case ptr of
        None \<Rightarrow>
          if oldsize = 0 then Some (PMMG_MALLOC lc msh newsize sz) else None
      | Some a \<Rightarrow>
          if newsize = 0 then Some (PMMG_DEL_MEM msh ptr oldsize sz)
          else if newsize < oldsize then
            (let size_to_allocate = long_long (newsize * sz) in
             case realloc lc a ((newsize * sz) mod 2 ^ 64) of
               None \<Rightarrow>
                 (let d = PMMG_DEL_MEM msh ptr oldsize sz in
                  Some (d\<lparr>log_of := [sys_realloc a ((newsize * sz) mod 2 ^ 64),
                                      ERROR_AT '' Realloc failed: '']
                                     @ log_of d @ [on_failure]\<rparr>))
             | Some tmp \<Rightarrow>
                 Some \<lparr>mesh_of =
                         msh\<lparr>memCur :=
                               memCur msh - (long_long (oldsize * sz) - size_to_allocate)\<rparr>,
                       ptr_of = Some tmp,
                       log_of = [sys_realloc a ((newsize * sz) mod 2 ^ 64)]\<rparr>)
          else if newsize > oldsize then
            (let size_to_allocate = long_long ((newsize - oldsize) * sz);
                 (stat, log) = MEM_CHK_AVAIL msh size_to_allocate
             in if stat = PMMG_SUCCESS then
                  (case realloc lc a ((newsize * sz) mod 2 ^ 64) of
                     None \<Rightarrow>
                       (let d = PMMG_DEL_MEM msh ptr oldsize sz in
                        Some (d\<lparr>log_of := log @ [sys_realloc a ((newsize * sz) mod 2 ^ 64),
                                                   ERROR_AT '' Realloc failed: '']
                                           @ log_of d @ [on_failure]\<rparr>))
                   | Some tmp \<Rightarrow>
                       Some \<lparr>mesh_of = msh\<lparr>memCur := memCur msh + size_to_allocate\<rparr>,
                             ptr_of = Some tmp,
                             log_of = log @ [sys_realloc a ((newsize * sz) mod 2 ^ 64)]\<rparr>)
                else Some \<lparr>mesh_of = msh, ptr_of = ptr, log_of = log\<rparr>)
          else Some \<lparr>mesh_of = msh, ptr_of = ptr, log_of = []\<rparr>)"

text \<open>
  \<^verbatim>\<open>PMMG_RECALLOC\<close> passes \<^verbatim>\<open>on_failure;my_stat=PMMG_FAILURE\<close> as the failure statement:
  \<^verbatim>\<open>my_stat\<close> is still \<open>PMMG_SUCCESS\<close> exactly when \<^verbatim>\<open>on_failure\<close> was not executed.
\<close>

definition PMMG_RECALLOC ::
  "libc \<Rightarrow> 'a mem_scheme \<Rightarrow> addr option \<Rightarrow> int \<Rightarrow> int \<Rightarrow> int
     \<Rightarrow> 'a mem_scheme after option" where
  "PMMG_RECALLOC lc msh ptr newsize oldsize sz =
     (case PMMG_REALLOC lc msh ptr newsize oldsize sz of
        None \<Rightarrow> None
      | Some r \<Rightarrow>
          (let my_stat = (if on_failure \<in> set (log_of r) then PMMG_FAILURE else PMMG_SUCCESS)
           in if my_stat = PMMG_SUCCESS \<and> newsize > oldsize
              then Some (r\<lparr>log_of := log_of r
                             @ [sys_memset (ptr_of r) oldsize ((newsize - oldsize) * sz)]\<rparr>)
              else Some r))"

text \<open>A sequence of macro invocations on one mesh; a failed assertion ends it.\<close>

datatype mem_op =
    Malloc int int
  | Calloc int int
  | Realloc "addr option" int int int
  | Recalloc "addr option" int int int
  | Del_mem "addr option" int int

fun mem_step :: "libc \<Rightarrow> 'a mem_scheme \<Rightarrow> mem_op \<Rightarrow> 'a mem_scheme option" where
  "mem_step lc msh (Malloc siz sz) = Some (mesh_of (PMMG_MALLOC lc msh siz sz))"
| "mem_step lc msh (Calloc siz sz) = Some (mesh_of (PMMG_CALLOC lc msh siz sz))"
| "mem_step lc msh (Realloc ptr newsize oldsize sz) =
     map_option mesh_of (PMMG_REALLOC lc msh ptr newsize oldsize sz)"
| "mem_step lc msh (Recalloc ptr newsize oldsize sz) =
     map_option mesh_of (PMMG_RECALLOC lc msh ptr newsize oldsize sz)"
| "mem_step lc msh (Del_mem ptr siz sz) = Some (mesh_of (PMMG_DEL_MEM msh ptr siz sz))"

fun mem_run :: "libc \<Rightarrow> 'a mem_scheme \<Rightarrow> mem_op list \<Rightarrow> 'a mem_scheme option" where
  "mem_run lc msh [] = Some msh"
| "mem_run lc msh (x # xs) =
     (case mem_step lc msh x of None \<Rightarrow> None | Some msh' \<Rightarrow> mem_run lc msh' xs)"

text \<open>Two allocators for the examples: one that always answers, one that is exhausted.\<close>

definition libc_ok :: libc where
  "libc_ok = \<lparr>malloc = (\<lambda>n. Some 1), calloc = (\<lambda>n s. Some 1), realloc = (\<lambda>a n. Some 2)\<rparr>"


definition mem100 :: mem where
  "mem100 = \<lparr>memMax = 100, memCur = 0\<rparr>"

section \<open>The cleanup macro\<close>

text \<open>
  \<^verbatim>\<open>PMMG_CLEAN_AND_RETURN\<close> walks over the groups \<open>0 .. ngrp - 1\<close> and, inside a group with
  a mesh, over the solutions \<open>0 .. nsols - 1\<close>. Reading a group or a solution that the
  arrays do not hold is an invalid access (\<open>None\<close>).
\<close>

function clean_sol_loop :: "int \<Rightarrow> int \<Rightarrow> MMG5_Sol list \<Rightarrow> MMG5_Sol list option" where
  "clean_sol_loop ksol n sols =
     (if ksol < n then
        (case array_read sols ksol of
           None \<Rightarrow> None
         | Some s \<Rightarrow> clean_sol_loop (ksol + 1) n (sols[nat ksol := s\<lparr>sol_npi := sol_np s\<rparr>]))
      else Some sols)"
  by pat_completeness auto
termination
  by (relation "measure (\<lambda>(ksol, n, sols). nat (n - ksol))") auto

declare clean_sol_loop.simps [simp del]

definition clean_grp :: "PMMG_Grp \<Rightarrow> PMMG_Grp option" where
  \<comment> \<open>the body of the loop over the groups\<close>
  "clean_grp g =
     (let g1 = (case mesh g of
                  None \<Rightarrow> g
                | Some m \<Rightarrow> g\<lparr>mesh := Some (m\<lparr>npi := np m, nti := nt m,
                                               nai := na m, nei := ne m\<rparr>)\<rparr>);
          g2 = (case met g1 of
                  None \<Rightarrow> g1
                | Some s \<Rightarrow> g1\<lparr>met := Some (s\<lparr>sol_npi := sol_np s\<rparr>)\<rparr>)
      in case mesh g2 of
           None \<Rightarrow> Some g2
         | Some m \<Rightarrow> map_option (\<lambda>sols. g2\<lparr>sol := sols\<rparr>) (clean_sol_loop 0 (nsols m) (sol g2)))"

function clean_grp_loop :: "int \<Rightarrow> PMMG_ParMesh \<Rightarrow> PMMG_ParMesh option" where
  "clean_grp_loop kgrp p =
     (if kgrp < ngrp p then
        (case array_read (listgrp p) kgrp of
           None \<Rightarrow> None
         | Some g \<Rightarrow>
             (case clean_grp g of
                None \<Rightarrow> None
              | Some g' \<Rightarrow> clean_grp_loop (kgrp + 1) (p\<lparr>listgrp := (listgrp p)[nat kgrp := g']\<rparr>)))
      else Some p)"
  by pat_completeness auto
termination
  by (relation "measure (\<lambda>(kgrp, p). nat (ngrp p - kgrp))") auto

declare clean_grp_loop.simps [simp del]

definition PMMG_CLEAN_AND_RETURN :: "PMMG_ParMesh \<Rightarrow> int \<Rightarrow> (int \<times> PMMG_ParMesh) option" where
  "PMMG_CLEAN_AND_RETURN p val = map_option (\<lambda>p'. (val, p')) (clean_grp_loop 0 p)"

section \<open>Collaborators and traces\<close>

text \<open>
  The routines that the library entry points call and that are not part of these sources
  (the remeshing kernel of Mmg, the distribution, remeshing and merging steps of ParMmg,
  the release of the communicators) are parameters: each one maps the structure it is
  handed to its return value and to the structure as it leaves it. A routine that takes
  a mesh and a metric cannot change the pointers that the group holds, only what they
  point to. \<^verbatim>\<open>_MMG3D_Set_commonFunc\<close> takes no argument and is left out.
\<close>

type_synonym mesh_met_fun = "MMG5_Mesh \<Rightarrow> MMG5_Sol \<Rightarrow> int \<times> MMG5_Mesh \<times> MMG5_Sol"

record ext =
  MMG5_warnOrientation :: "MMG5_Mesh \<Rightarrow> MMG5_Mesh"
  MMG5_DEL_MEM :: "MMG5_Mesh \<Rightarrow> real list option \<Rightarrow> int \<Rightarrow> MMG5_Mesh \<times> real list option"
  MMG5_scaleMesh :: mesh_met_fun
  MMG3D_doSol :: mesh_met_fun
  MMG3D_solTruncatureForOptim :: mesh_met_fun
  MMG3D_Set_constantSize :: mesh_met_fun
  MMG3D_setfunc :: "MMG5_Mesh \<Rightarrow> MMG5_Sol \<Rightarrow> MMG5_Mesh \<times> MMG5_Sol"
  MMG3D_tetraQual :: mesh_met_fun
  MMG3D_inqua :: mesh_met_fun
  MMG3D_analys :: "MMG5_Mesh \<Rightarrow> int \<times> MMG5_Mesh"
  MMG3D_prilen :: mesh_met_fun
  MMG5_unscaleMesh :: mesh_met_fun
  PMMG_bcast_mesh :: "PMMG_ParMesh \<Rightarrow> int \<times> PMMG_ParMesh"
  PMMG_distribute_mesh :: "PMMG_ParMesh \<Rightarrow> int \<times> PMMG_ParMesh"
  PMMG_parmmglib1 :: "PMMG_ParMesh \<Rightarrow> int \<times> PMMG_ParMesh"
  PMMG_merge_parmesh :: "PMMG_ParMesh \<Rightarrow> int \<times> PMMG_ParMesh"
  PMMG_parmesh_Free_Comm :: "PMMG_ParMesh \<Rightarrow> PMMG_ParMesh"
  MMG3D_hashTetra :: "MMG5_Mesh \<Rightarrow> int \<times> MMG5_Mesh"
  MMG3D_bdryBuild :: "MMG5_Mesh \<Rightarrow> int \<times> MMG5_Mesh"

text \<open>
  What a process does is recorded in a trace: the routines that the entry point calls, in
  order, the error and warning texts it writes, and the result that each collective
  reduction hands back. The routines that release groups (\<^verbatim>\<open>PMMG_parmesh_Free_Listgrp\<close>,
  \<^verbatim>\<open>PMMG_listgrp_free\<close>, \<^verbatim>\<open>PMMG_grp_free\<close>) and the whole parmesh (\<^verbatim>\<open>PMMG_Free_all\<close>) are
  declared in \<^verbatim>\<open>parmmg.h\<close> and used by \<^verbatim>\<open>PMMG_RETURN_AND_FREE\<close>; they are listed so that a
  trace can speak about them.
\<close>

datatype routine =
    check_inputData
  | bcast_mesh
  | preprocessMesh
  | unscaleMesh
  | distribute_mesh
  | parmmglib1
  | merge_parmesh
  | parmesh_Free_Comm
  | hashTetra
  | bdryBuild
  | parmesh_Free_Listgrp
  | listgrp_free
  | grp_free
  | Free_all

datatype redop = MPI_MIN | MPI_MAX

datatype trace_event =
    Call routine
  | Message string
  | Allreduce redop int int
    \<comment> \<open>the operation, the local contribution, the result received\<close>

type_synonym trace = "trace_event list"

section \<open>Input check\<close>

definition check_inputData_grp ::
  "ext \<Rightarrow> MMG5_Mesh \<Rightarrow> MMG5_Sol \<Rightarrow> trace \<times> bool \<times> MMG5_Mesh \<times> MMG5_Sol" where
  \<comment> \<open>the body of the loop over the groups; the flag is false when the body returns 0;
      8 is \<^verbatim>\<open>sizeof(double)\<close>\<close>
  "check_inputData_grp e m s =
     (if lag (info m) > - 1 then
        ([Message ''  ## Error: lagrangian mode unavailable (MMG3D_IPARAM_lag):''],
         False, m, s)
      else if iso (info m) \<noteq> 0 then
        ([Message ''  ## Error: level-set discretisation unavailable (MMG3D_IPARAM_iso):''],
         False, m, s)
      else if optimLES (info m) \<noteq> 0 \<and> sol_size s = 6 then
        ([Message ''  ## Error: strong mesh optimization for LES methods unavailable (MMG3D_IPARAM_optimLES) with an anisotropic metric.''],
         False, m, s)
      else if sol_np s \<noteq> 0 \<and> optim (info m) \<noteq> 0 then
        ([Message ''  ## ERROR: MISMATCH OPTIONS: OPTIM OPTION CAN NOT BE USED WITH AN INPUT METRIC.''],
         False, m, s)
      else if sol_np s \<noteq> 0 \<and> hsiz (info m) > 0 then
        ([Message ''  ## ERROR: MISMATCH OPTIONS: HSIZ OPTION CAN NOT BE USED WITH AN INPUT METRIC.''],
         False, m, s)
      else if optim (info m) \<noteq> 0 \<and> hsiz (info m) > 0 then
        ([Message ''  ## ERROR: MISMATCH OPTIONS: HSIZ AND OPTIM OPTIONS CAN NOT BE USED TOGETHER.''],
         False, m, s)
      else
        (let m1 = MMG5_warnOrientation e m in
         if sol_np s \<noteq> 0 \<and> sol_np s \<noteq> np m1 then
           (let (m2, ptr) = MMG5_DEL_MEM e m1 (sol_m s) ((sol_size s * (sol_npmax s + 1)) * 8)
            in ([Message ''  ## WARNING: WRONG METRIC NUMBER. IGNORED''],
                True, m2, s\<lparr>sol_m := ptr, sol_np := 0\<rparr>))
         else if sol_size s \<noteq> 1 \<and> sol_size s \<noteq> 6 then
           ([Message ''  ## ERROR: WRONG DATA TYPE.''], False, m1, s)
         else ([], True, m1, s)))"

function check_inputData_loop ::
  "ext \<Rightarrow> int \<Rightarrow> PMMG_ParMesh \<Rightarrow> trace \<Rightarrow> (trace \<times> int \<times> PMMG_ParMesh) option" where
  "check_inputData_loop e k p out =
     (if k < ngrp p then
        (case array_read (listgrp p) k of
           None \<Rightarrow> None
         | Some g \<Rightarrow>
             (case mesh g of
                None \<Rightarrow> None
              | Some m \<Rightarrow>
                  (case met g of
                     None \<Rightarrow> None
                   | Some s \<Rightarrow>
                       (case check_inputData_grp e m s of
                          (msgs, ok, m', s') \<Rightarrow>
                            if ok then
                              check_inputData_loop e (k + 1)
                                (p\<lparr>listgrp := (listgrp p)[nat k := g\<lparr>mesh := Some m', met := Some s'\<rparr>]\<rparr>)
                                (out @ msgs)
                            else
                              Some (out @ msgs, 0,
                                    p\<lparr>listgrp := (listgrp p)[nat k := g\<lparr>mesh := Some m', met := Some s'\<rparr>]\<rparr>)))))
      else Some (out, 1, p))"
  by pat_completeness auto
termination
  by (relation "measure (\<lambda>(e, k, p, out). nat (ngrp p - k))") auto

declare check_inputData_loop.simps [simp del]

definition PMMG_check_inputData :: "ext \<Rightarrow> PMMG_ParMesh \<Rightarrow> (trace \<times> int \<times> PMMG_ParMesh) option" where
  "PMMG_check_inputData e p = check_inputData_loop e 0 p []"

section \<open>Mesh preprocessing\<close>

definition preprocessMesh_body ::
  "ext \<Rightarrow> int \<Rightarrow> MMG5_Mesh \<Rightarrow> MMG5_Sol \<Rightarrow> int \<times> MMG5_Mesh \<times> MMG5_Sol" where
  \<comment> \<open>\<^verbatim>\<open>PMMG_preprocessMesh\<close> on the mesh and the metric of the first group; the second
      argument is \<^verbatim>\<open>parmesh->info.imprim\<close>\<close>
  "preprocessMesh_body e impr m0 s0 =
     (case MMG5_scaleMesh e m0 s0 of (r1, m1, s1) \<Rightarrow>
      if r1 = 0 then (PMMG_LOWFAILURE, m1, s1) else
      (case (if optim (info m1) \<noteq> 0 \<and> sol_np s1 = 0 then
               (case MMG3D_doSol e m1 s1 of (r, m, s) \<Rightarrow>
                  if r = 0 then Inl (PMMG_STRONGFAILURE, m, s)
                  else (case MMG3D_solTruncatureForOptim e m s of (r', m', s') \<Rightarrow> Inr (m', s')))
             else Inr (m1, s1)) of
         Inl res \<Rightarrow> res
       | Inr (m2, s2) \<Rightarrow>
      (case (if hsiz (info m2) > 0 then
               (case MMG3D_Set_constantSize e m2 s2 of (r, m, s) \<Rightarrow>
                  if r = 0 then Inl (PMMG_STRONGFAILURE, m, s) else Inr (m, s))
             else Inr (m2, s2)) of
         Inl res \<Rightarrow> res
       | Inr (m3, s3) \<Rightarrow>
      (case MMG3D_setfunc e m3 s3 of (m4, s4) \<Rightarrow>
      (case MMG3D_tetraQual e m4 s4 of (r5, m5, s5) \<Rightarrow>
      if r5 = 0 then (PMMG_STRONGFAILURE, m5, s5) else
      (case (if \<bar>impr\<bar> > 0 then
               (case MMG3D_inqua e m5 s5 of (r, m, s) \<Rightarrow>
                  if r = 0 then Inl (PMMG_STRONGFAILURE, m, s) else Inr (m, s))
             else Inr (m5, s5)) of
         Inl res \<Rightarrow> res
       | Inr (m6, s6) \<Rightarrow>
      (case MMG3D_analys e m6 of (r7, m7) \<Rightarrow>
      if r7 = 0 then (PMMG_STRONGFAILURE, m7, s6) else
      (case (if impr > 1 \<and> sol_m s6 \<noteq> None then
               (case MMG3D_prilen e m7 s6 of (r, m, s) \<Rightarrow> (m, s))
             else (m7, s6)) of (m8, s8) \<Rightarrow>
      (case MMG5_unscaleMesh e m8 s8 of (r9, m9, s9) \<Rightarrow>
      if r9 = 0 then (PMMG_STRONGFAILURE, m9, s9) else (PMMG_SUCCESS, m9, s9))))))))))"

definition PMMG_preprocessMesh :: "ext \<Rightarrow> PMMG_ParMesh \<Rightarrow> (int \<times> PMMG_ParMesh) option" where
  \<comment> \<open>\<open>None\<close>: there is no first group, or the assertion on its mesh and metric fails\<close>
  "PMMG_preprocessMesh e p =
     (case array_read (listgrp p) 0 of
        None \<Rightarrow> None
      | Some g \<Rightarrow>
          (case mesh g of
             None \<Rightarrow> None
           | Some m \<Rightarrow>
               (case met g of
                  None \<Rightarrow> None
                | Some s \<Rightarrow>
                    (case preprocessMesh_body e (imprim p) m s of
                       (ier, m', s') \<Rightarrow>
                         Some (ier, p\<lparr>listgrp := (listgrp p)[0 := g\<lparr>mesh := Some m', met := Some s'\<rparr>]\<rparr>)))))"

definition unscale_after_failure ::
  "ext \<Rightarrow> int \<Rightarrow> int \<Rightarrow> PMMG_ParMesh \<Rightarrow> (int \<times> PMMG_ParMesh \<times> trace) option" where
  \<comment> \<open>the lines after the call of \<^verbatim>\<open>PMMG_preprocessMesh\<close>: the mesh and the metric of group
      \<open>k\<close> are read, and a strong failure becomes a low one when the mesh can be unscaled\<close>
  "unscale_after_failure e k ier p =
     (case array_read (listgrp p) k of
        None \<Rightarrow> None
      | Some g \<Rightarrow>
          if ier = PMMG_STRONGFAILURE then
            (case mesh g of
               None \<Rightarrow> None
             | Some m \<Rightarrow>
                 (case met g of
                    None \<Rightarrow> None
                  | Some s \<Rightarrow>
                      (case MMG5_unscaleMesh e m s of
                         (r, m', s') \<Rightarrow>
                           Some (if r \<noteq> 0 then PMMG_LOWFAILURE else ier,
                                 p\<lparr>listgrp := (listgrp p)[nat k := g\<lparr>mesh := Some m', met := Some s'\<rparr>]\<rparr>,
                                 [Call unscaleMesh]))))
          else Some (ier, p, []))"

definition preprocess_and_unscale ::
  "ext \<Rightarrow> int \<Rightarrow> PMMG_ParMesh \<Rightarrow> (int \<times> PMMG_ParMesh \<times> trace) option" where
  \<comment> \<open>the preprocessing as both entry points run it, up to the reduction of its outcome\<close>
  "preprocess_and_unscale e k p =
     (case PMMG_preprocessMesh e p of
        None \<Rightarrow> None
      | Some (ier1, p2) \<Rightarrow> unscale_after_failure e k ier1 p2)"

section \<open>Processes and collective reductions\<close>

text \<open>
  A library entry point runs on every process of the communicator. On one process it is
  a computation that ends by returning a code, with the parmesh as it is then and the
  trace, or by stopping abnormally, or that reaches \<^verbatim>\<open>MPI_Allreduce\<close> with a local
  contribution (and the trace so far) and goes on once the reduced value is there.
\<close>

datatype step =
    Return int PMMG_ParMesh trace
  | Abort trace
  | MPI_Allreduce redop int trace "int \<Rightarrow> step"

datatype outcome =
    Returned int PMMG_ParMesh trace
  | Aborted trace
  | Blocked trace
  | Unfinished trace

fun reduce :: "redop \<Rightarrow> int list \<Rightarrow> int" where
  "reduce MPI_MIN (v # vs) = fold min vs v"
| "reduce MPI_MAX (v # vs) = fold max vs v"
| "reduce opr [] = 0"

fun pending :: "step \<Rightarrow> redop option" where
  "pending (MPI_Allreduce opr v tr k) = Some opr"
| "pending (Return c p tr) = None"
| "pending (Abort tr) = None"

fun contribution :: "step \<Rightarrow> int" where
  "contribution (MPI_Allreduce opr v tr k) = v"
| "contribution (Return c p tr) = 0"
| "contribution (Abort tr) = 0"

fun resume :: "int \<Rightarrow> step \<Rightarrow> step" where
  "resume r (MPI_Allreduce opr v tr k) = k r"
| "resume r (Return c p tr) = Return c p tr"
| "resume r (Abort tr) = Abort tr"

fun conclude :: "step \<Rightarrow> outcome" where
  "conclude (Return c p tr) = Returned c p tr"
| "conclude (Abort tr) = Aborted tr"
| "conclude (MPI_Allreduce opr v tr k) = Blocked tr"

fun out_of_rounds :: "step \<Rightarrow> outcome" where
  "out_of_rounds (Return c p tr) = Returned c p tr"
| "out_of_rounds (Abort tr) = Aborted tr"
| "out_of_rounds (MPI_Allreduce opr v tr k) = Unfinished tr"

text \<open>
  A collective reduction completes when every process of the communicator has called it,
  with the same operation; each process then receives the reduction of all the
  contributions. When a process has left the entry point, or stopped, while others wait
  in a reduction, the reduction never completes and those processes stay blocked.
\<close>

definition collective :: "step list \<Rightarrow> redop option" where
  "collective ss =
     (case ss of
        [] \<Rightarrow> None
      | s # rest \<Rightarrow>
          (case pending s of
             None \<Rightarrow> None
           | Some opr \<Rightarrow> if list_all (\<lambda>t. pending t = Some opr) ss then Some opr else None))"

fun mpi_run :: "nat \<Rightarrow> step list \<Rightarrow> outcome list" where
  "mpi_run 0 ss = map out_of_rounds ss"
| "mpi_run (Suc n) ss =
     (case collective ss of
        None \<Rightarrow> map conclude ss
      | Some opr \<Rightarrow> mpi_run n (map (resume (reduce opr (map contribution ss))) ss))"

declare mpi_run.simps [simp del]

section \<open>The library entry points\<close>

text \<open>
  The texts printed under \<^verbatim>\<open>imprim\<close> and the timers do not influence the control flow and
  are left out. Each entry point is cut at its collective reductions; the pieces are named
  after the phase that the source announces there.
\<close>

definition clean_and_return :: "PMMG_ParMesh \<Rightarrow> trace \<Rightarrow> int \<Rightarrow> step" where
  \<comment> \<open>\<^verbatim>\<open>PMMG_CLEAN_AND_RETURN\<close> as the last statement of an entry point\<close>
  "clean_and_return p tr val =
     (case PMMG_CLEAN_AND_RETURN p val of
        None \<Rightarrow> Abort tr
      | Some (v, p') \<Rightarrow> Return v p' tr)"

definition devote_memory_to_mesh :: "ext \<Rightarrow> PMMG_ParMesh \<Rightarrow> (PMMG_ParMesh \<times> PMMG_Grp \<times> MMG5_Mesh) option" where
  \<comment> \<open>``All the memory is devoted to the mesh'': the communicators are released and what
      the parmesh does not use is added to the ceiling of the first mesh\<close>
  "devote_memory_to_mesh e p =
     (let p1 = PMMG_parmesh_Free_Comm e p;
          tmpmem = memMax p1 - memCur p1;
          p2 = p1\<lparr>memMax := memCur p1\<rparr>
      in case array_read (listgrp p2) 0 of
           None \<Rightarrow> None
         | Some g \<Rightarrow>
             (case mesh g of
                None \<Rightarrow> None
              | Some m \<Rightarrow> Some (p2, g, m\<lparr>memMax := memMax m + tmpmem\<rparr>)))"

definition boundary_reconstruction :: "ext \<Rightarrow> MMG5_Mesh \<Rightarrow> bool \<times> MMG5_Mesh \<times> trace" where
  \<comment> \<open>the condition \<^verbatim>\<open>(!MMG3D_hashTetra(mesh,0)) || (-1 == MMG3D_bdryBuild(mesh))\<close>; the
      flag is true when it holds\<close>
  "boundary_reconstruction e m =
     (case MMG3D_hashTetra e m of (r1, m1) \<Rightarrow>
        if r1 = 0 then (True, m1, [Call hashTetra])
        else (case MMG3D_bdryBuild e m1 of (r2, m2) \<Rightarrow>
                (r2 = - 1, m2, [Call hashTetra, Call bdryBuild])))"

definition store_mesh :: "PMMG_ParMesh \<Rightarrow> PMMG_Grp \<Rightarrow> MMG5_Mesh \<Rightarrow> PMMG_ParMesh" where
  \<comment> \<open>the parmesh whose first group points to the mesh as the callee left it\<close>
  "store_mesh p g m = p\<lparr>listgrp := (listgrp p)[0 := g\<lparr>mesh := Some m\<rparr>]\<rparr>"

definition centralized_phase4 :: "ext \<Rightarrow> int \<Rightarrow> PMMG_ParMesh \<Rightarrow> trace \<Rightarrow> step" where
  \<comment> \<open>from \<^verbatim>\<open>if ( !parmesh->myrank )\<close> to the end of \<^verbatim>\<open>PMMG_parmmglib_centralized\<close>\<close>
  "centralized_phase4 e ierlib p tr =
     (if myrank p = 0 then
        (case devote_memory_to_mesh e p of
           None \<Rightarrow> Abort (tr @ [Call parmesh_Free_Comm])
         | Some (p2, g, m) \<Rightarrow>
             (case boundary_reconstruction e m of
                (failed, m', calls) \<Rightarrow>
                  if failed then
                    clean_and_return (store_mesh p2 g m')
                      (tr @ [Call parmesh_Free_Comm] @ calls
                          @ [Message ''  -- IMPOSSIBLE TO BUILD THE BOUNDARY MESH''])
                      PMMG_LOWFAILURE
                  else
                    clean_and_return (store_mesh p2 g m')
                      (tr @ [Call parmesh_Free_Comm] @ calls) ierlib))
      else clean_and_return p tr ierlib)"

definition centralized_phase3 :: "ext \<Rightarrow> int \<Rightarrow> PMMG_ParMesh \<Rightarrow> trace \<Rightarrow> step" where
  \<comment> \<open>from the test of \<^verbatim>\<open>ierlib\<close> after the remeshing to the merge of the meshes\<close>
  "centralized_phase3 e ierlib p tr =
     (if ierlib = PMMG_STRONGFAILURE then Return ierlib p tr
      else
        (case PMMG_merge_parmesh e p of
           (iresult, p1) \<Rightarrow>
             if iresult = 0 then clean_and_return p1 (tr @ [Call merge_parmesh]) PMMG_STRONGFAILURE
             else centralized_phase4 e ierlib p1 (tr @ [Call merge_parmesh])))"

definition centralized_phase2 :: "ext \<Rightarrow> PMMG_ParMesh \<Rightarrow> trace \<Rightarrow> step" where
  \<comment> \<open>the remeshing and the reduction of its outcome\<close>
  "centralized_phase2 e p tr =
     (case PMMG_parmmglib1 e p of
        (ier, p1) \<Rightarrow>
          MPI_Allreduce MPI_MAX ier (tr @ [Call parmmglib1])
            (\<lambda>ierlib. centralized_phase3 e ierlib p1
                         (tr @ [Call parmmglib1, Allreduce MPI_MAX ier ierlib])))"

definition centralized_distribute :: "ext \<Rightarrow> int \<Rightarrow> PMMG_ParMesh \<Rightarrow> trace \<Rightarrow> step" where
  \<comment> \<open>from the test of the reduced outcome of the preprocessing to the remeshing\<close>
  "centralized_distribute e iresult p tr =
     (if iresult \<noteq> PMMG_SUCCESS then Return iresult p tr
      else
        (case PMMG_distribute_mesh e p of
           (r, p1) \<Rightarrow>
             if r = 0 then clean_and_return p1 (tr @ [Call distribute_mesh]) PMMG_LOWFAILURE
             else centralized_phase2 e p1 (tr @ [Call distribute_mesh])))"

definition centralized_analysis :: "ext \<Rightarrow> PMMG_ParMesh \<Rightarrow> trace \<Rightarrow> step" where
  \<comment> \<open>the preprocessing of the mesh and the reduction of its outcome\<close>
  "centralized_analysis e p tr =
     (case preprocess_and_unscale e 0 p of
        None \<Rightarrow> Abort (tr @ [Call preprocessMesh])
      | Some (ier, p3, calls) \<Rightarrow>
          MPI_Allreduce MPI_MAX ier (tr @ [Call preprocessMesh] @ calls)
            (\<lambda>iresult. centralized_distribute e iresult p3
                          (tr @ [Call preprocessMesh] @ calls @ [Allreduce MPI_MAX ier iresult])))"

definition centralized_phase1 :: "ext \<Rightarrow> int \<Rightarrow> PMMG_ParMesh \<Rightarrow> trace \<Rightarrow> step" where
  \<comment> \<open>from the test of the reduced input check to the preprocessing\<close>
  "centralized_phase1 e iresult p tr =
     (if iresult = 0 then Return PMMG_LOWFAILURE p tr
      else
        (case PMMG_bcast_mesh e p of
           (ier, p1) \<Rightarrow>
             if ier \<noteq> 1 then Return PMMG_LOWFAILURE p1 (tr @ [Call bcast_mesh])
             else centralized_analysis e p1 (tr @ [Call bcast_mesh])))"

definition PMMG_parmmglib_centralized :: "ext \<Rightarrow> PMMG_ParMesh \<Rightarrow> step" where
  "PMMG_parmmglib_centralized e p =
     (case PMMG_check_inputData e p of
        None \<Rightarrow> Abort [Call check_inputData]
      | Some (msgs, ier, p1) \<Rightarrow>
          MPI_Allreduce MPI_MIN ier ([Call check_inputData] @ msgs)
            (\<lambda>iresult. centralized_phase1 e iresult p1
                          ([Call check_inputData] @ msgs @ [Allreduce MPI_MIN ier iresult])))"

text \<open>
  \<^verbatim>\<open>PMMG_parmmglib_distributed\<close>. The macro \<^verbatim>\<open>MPI_CHECK\<close> around its first reduction is not
  among the sources; a reduction that completes is taken to succeed. The loop of the
  analysis phase preprocesses the first group at every turn and reduces once per group.
\<close>

definition distributed_phase3 :: "ext \<Rightarrow> int \<Rightarrow> PMMG_ParMesh \<Rightarrow> trace \<Rightarrow> step" where
  \<comment> \<open>from the test of \<^verbatim>\<open>ierlib\<close> after the remeshing to the end\<close>
  "distributed_phase3 e ierlib p tr =
     (if ierlib = PMMG_STRONGFAILURE then Return ierlib p tr
      else
        (case devote_memory_to_mesh e p of
           None \<Rightarrow> Abort (tr @ [Call parmesh_Free_Comm])
         | Some (p2, g, m) \<Rightarrow>
             (case boundary_reconstruction e m of
                (failed, m', calls) \<Rightarrow>
                  if failed then
                    Return PMMG_LOWFAILURE (store_mesh p2 g m')
                      (tr @ [Call parmesh_Free_Comm] @ calls
                          @ [Message ''  -- IMPOSSIBLE TO BUILD THE BOUNDARY MESH''])
                  else
                    Return ierlib (store_mesh p2 g m')
                      (tr @ [Call parmesh_Free_Comm] @ calls))))"

definition distributed_phase2 :: "ext \<Rightarrow> PMMG_ParMesh \<Rightarrow> trace \<Rightarrow> step" where
  "distributed_phase2 e p tr =
     (case PMMG_parmmglib1 e p of
        (ier, p1) \<Rightarrow>
          MPI_Allreduce MPI_MAX ier (tr @ [Call parmmglib1])
            (\<lambda>ierlib. distributed_phase3 e ierlib p1
                         (tr @ [Call parmmglib1, Allreduce MPI_MAX ier ierlib])))"

function distributed_analysis :: "ext \<Rightarrow> int \<Rightarrow> PMMG_ParMesh \<Rightarrow> trace \<Rightarrow> step" where
  "distributed_analysis e k p tr =
     (if k < ngrp p then
        (case preprocess_and_unscale e k p of
           None \<Rightarrow> Abort (tr @ [Call preprocessMesh])
         | Some (ier, p3, calls) \<Rightarrow>
             MPI_Allreduce MPI_MAX ier (tr @ [Call preprocessMesh] @ calls)
               (\<lambda>iresult.
                  if iresult \<noteq> PMMG_SUCCESS then
                    Return iresult p3
                      (tr @ [Call preprocessMesh] @ calls @ [Allreduce MPI_MAX ier iresult])
                  else
                    distributed_analysis e (k + 1) p3
                      (tr @ [Call preprocessMesh] @ calls @ [Allreduce MPI_MAX ier iresult])))
      else distributed_phase2 e p tr)"
  by pat_completeness auto
termination
  by (relation "measure (\<lambda>(e, k, p, tr). nat (ngrp p - k))")
    (auto simp add: preprocess_and_unscale_def PMMG_preprocessMesh_def unscale_after_failure_def
      split: option.splits if_splits prod.splits)

declare distributed_analysis.simps [simp del]

definition distributed_phase1 :: "ext \<Rightarrow> int \<Rightarrow> PMMG_ParMesh \<Rightarrow> trace \<Rightarrow> step" where
  "distributed_phase1 e iresult p tr =
     (if iresult = 0 then Return PMMG_LOWFAILURE p tr
      else distributed_analysis e 0 p tr)"

definition PMMG_parmmglib_distributed :: "ext \<Rightarrow> PMMG_ParMesh \<Rightarrow> step" where
  "PMMG_parmmglib_distributed e p =
     (case PMMG_check_inputData e p of
        None \<Rightarrow> Abort [Call check_inputData]
      | Some (msgs, ier, p1) \<Rightarrow>
          MPI_Allreduce MPI_MIN ier ([Call check_inputData] @ msgs)
            (\<lambda>iresult. distributed_phase1 e iresult p1
                          ([Call check_inputData] @ msgs @ [Allreduce MPI_MIN ier iresult])))"

section \<open>Reading outcomes\<close>

fun returned_code :: "outcome \<Rightarrow> int option" where
  "returned_code (Returned c p tr) = Some c"
| "returned_code (Aborted tr) = None"
| "returned_code (Blocked tr) = None"
| "returned_code (Unfinished tr) = None"

fun trace_of :: "outcome \<Rightarrow> trace" where
  "trace_of (Returned c p tr) = tr"
| "trace_of (Aborted tr) = tr"
| "trace_of (Blocked tr) = tr"
| "trace_of (Unfinished tr) = tr"

fun structural :: "trace_event \<Rightarrow> bool" where
  \<comment> \<open>the events that make the skeleton of a trace: everything but the texts and the
      two calls that depend on a return value inside a phase\<close>
  "structural (Message txt) = False"
| "structural (Call r) = (r \<noteq> unscaleMesh \<and> r \<noteq> bdryBuild)"
| "structural (Allreduce opr v r) = True"

definition skeleton :: "trace \<Rightarrow> trace" where
  "skeleton tr = filter structural tr"

text \<open>
  The outcomes that a computation can have, whatever the other processes do: it ends, or
  it stays in one of its reductions, or it goes on with some reduced value.
\<close>

inductive ends :: "step \<Rightarrow> outcome \<Rightarrow> bool" where
  ends_Return: "ends (Return c p tr) (Returned c p tr)"
| ends_Abort: "ends (Abort tr) (Aborted tr)"
| ends_Blocked: "ends (MPI_Allreduce opr v tr k) (Blocked tr)"
| ends_Unfinished: "ends (MPI_Allreduce opr v tr k) (Unfinished tr)"
| ends_resume: "ends (k r) out \<Longrightarrow> ends (MPI_Allreduce opr v tr k) out"

definition allocated :: "PMMG_ParMesh \<Rightarrow> bool" where
  \<comment> \<open>the arrays hold what the counters announce: \<open>ngrp\<close> groups, and \<open>nsols\<close> solutions in
      every group that has a mesh\<close>
  "allocated p \<longleftrightarrow>
     ngrp p \<le> int (length (listgrp p))
   \<and> list_all (\<lambda>g. case mesh g of None \<Rightarrow> True | Some m \<Rightarrow> nsols m \<le> int (length (sol g)))
       (take (nat (ngrp p)) (listgrp p))"

section \<open>Examples\<close>

text \<open>A small mesh with two tetrahedra, adjacent through face 2 of the first and face 1 of the second.\<close>

definition info0 :: MMG5_Info where
  "info0 = \<lparr>lag = - 1, iso = 0, optim = 0, optimLES = 0, hsiz = - 1\<rparr>"

definition mesh2 :: MMG5_Mesh where
  "mesh2 = \<lparr>memMax = 1000, memCur = 200, np = 5, na = 0, nt = 0, ne = 2,
            npi = 0, nai = 0, nti = 0, nei = 0, nsols = 0,
            adja = [0, 0, 0, 9, 0, 0, 7, 0, 0, 0, 0, 0, 0], info = info0\<rparr>"

definition met0 :: MMG5_Sol where
  "met0 = \<lparr>sol_np = 0, sol_npi = 0, sol_npmax = 0, sol_size = 1, sol_m = None\<rparr>"

definition parmesh_of_rank :: "int \<Rightarrow> PMMG_ParMesh" where
  \<comment> \<open>a process that holds one group, the mesh above without a metric\<close>
  "parmesh_of_rank r =
     \<lparr>memMax = 1000, memCur = 0, myrank = r, imprim = 0, ngrp = 1,
      listgrp = [\<lparr>mesh = Some mesh2, met = Some met0, sol = []\<rparr>]\<rparr>"

definition parmesh_lagrangian :: PMMG_ParMesh where
  \<comment> \<open>the same, with the lagrangian mode switched on\<close>
  "parmesh_lagrangian =
     \<lparr>memMax = 1000, memCur = 0, myrank = 0, imprim = 0, ngrp = 1,
      listgrp = [\<lparr>mesh = Some (mesh2\<lparr>info := info0\<lparr>lag := 0\<rparr>\<rparr>), met = Some met0, sol = []\<rparr>]\<rparr>"

definition parmesh_short_metric :: PMMG_ParMesh where
  \<comment> \<open>the same as the first, with a metric for three points on a mesh of five\<close>
  "parmesh_short_metric =
     \<lparr>memMax = 1000, memCur = 0, myrank = 0, imprim = 0, ngrp = 1,
      listgrp = [\<lparr>mesh = Some mesh2, met = Some (met0\<lparr>sol_np := 3\<rparr>), sol = []\<rparr>]\<rparr>"

definition ext_ok :: ext where
  \<comment> \<open>collaborators that succeed and leave the structures as they are\<close>
  "ext_ok =
     \<lparr>MMG5_warnOrientation = (\<lambda>m. m),
      MMG5_DEL_MEM = (\<lambda>m ptr n. (m\<lparr>memCur := memCur m - n\<rparr>, None)),
      MMG5_scaleMesh = (\<lambda>m s. (1, m, s)),
      MMG3D_doSol = (\<lambda>m s. (1, m, s)),
      MMG3D_solTruncatureForOptim = (\<lambda>m s. (1, m, s)),
      MMG3D_Set_constantSize = (\<lambda>m s. (1, m, s)),
      MMG3D_setfunc = (\<lambda>m s. (m, s)),
      MMG3D_tetraQual = (\<lambda>m s. (1, m, s)),
      MMG3D_inqua = (\<lambda>m s. (1, m, s)),
      MMG3D_analys = (\<lambda>m. (1, m)),
      MMG3D_prilen = (\<lambda>m s. (1, m, s)),
      MMG5_unscaleMesh = (\<lambda>m s. (1, m, s)),
      PMMG_bcast_mesh = (\<lambda>p. (1, p)),
      PMMG_distribute_mesh = (\<lambda>p. (1, p)),
      PMMG_parmmglib1 = (\<lambda>p. (PMMG_SUCCESS, p)),
      PMMG_merge_parmesh = (\<lambda>p. (1, p)),
      PMMG_parmesh_Free_Comm = (\<lambda>p. p),
      MMG3D_hashTetra = (\<lambda>m. (1, m)),
      MMG3D_bdryBuild = (\<lambda>m. (1, m))\<rparr>"

definition ext_merge_fails :: ext where
  "ext_merge_fails = ext_ok\<lparr>PMMG_merge_parmesh := (\<lambda>p. (0, p))\<rparr>"

definition ext_boundary_fails :: ext where
  "ext_boundary_fails = ext_ok\<lparr>MMG3D_hashTetra := (\<lambda>m. (0, m))\<rparr>"

definition ext_remesh_strong :: ext where
  "ext_remesh_strong = ext_ok\<lparr>PMMG_parmmglib1 := (\<lambda>p. (PMMG_STRONGFAILURE, p))\<rparr>"

definition ext_remesh_low :: ext where
  "ext_remesh_low = ext_ok\<lparr>PMMG_parmmglib1 := (\<lambda>p. (PMMG_LOWFAILURE, p))\<rparr>"

definition parmesh_with_solution :: PMMG_ParMesh where
  \<comment> \<open>one group whose mesh carries one solution field, and a second group without mesh\<close>
  "parmesh_with_solution =
     \<lparr>memMax = 1000, memCur = 0, myrank = 0, imprim = 0, ngrp = 2,
      listgrp = [\<lparr>mesh = Some (mesh2\<lparr>nsols := 1\<rparr>), met = Some (met0\<lparr>sol_np := 5\<rparr>),
                  sol = [met0\<lparr>sol_np := 5\<rparr>]\<rparr>,
                 \<lparr>mesh = None, met = None, sol = []\<rparr>]\<rparr>"


definition ext_distribute_fails :: ext where
  "ext_distribute_fails = ext_ok\<lparr>PMMG_distribute_mesh := (\<lambda>p. (0, p))\<rparr>"

section \<open>Properties of the adjacency accessors\<close>

text \<open>
  C9. For a tetrahedron index \<open>element\<close> between 1 and \<open>ne\<close> and a face index between 0
  and 3, on a mesh whose adjacency array holds the entries \<open>0 .. 4 * ne\<close> (and whose index
  arithmetic fits in an \<^verbatim>\<open>int\<close>), the three accessors return, and four times the value of
  \<open>PMMG_adja_tetra_to_face\<close> plus the value of \<open>PMMG_adja_face_to_face\<close> is the value of
  \<open>PMMG_adja_idx_of_face\<close>: the two are the quotient and the remainder of C's division
  by 4 of the packed entry.
\<close>

theorem adja_decomposition:
  assumes "1 \<le> element" and "element \<le> ne msh"
    and "0 \<le> face" and "face < 4"
    and "4 * ne msh + 1 \<le> INT_MAX"
    and "4 * ne msh + 1 \<le> int (length (adja msh))"
  shows "\<exists>idx t f.
           PMMG_adja_idx_of_face msh element face = Some idx
         \<and> PMMG_adja_tetra_to_face msh element face = Some t
         \<and> PMMG_adja_face_to_face msh element face = Some f
         \<and> 4 * t + f = idx \<and> t = idx sdiv 4 \<and> f = idx smod 4"
proof -
  have "PMMG_adja_idx_of_face msh element face
        = Some (adja msh ! nat (4 * (element - 1) + 1 + face))"
    using assms
    by (simp add: PMMG_adja_idx_of_face_def c_int_def array_read_def INT_MIN_def INT_MAX_def)
  then show ?thesis
    by (simp add: PMMG_adja_tetra_to_face_def PMMG_adja_face_to_face_def mult_sdiv_smod_eq)
qed

theorem adja_decomposition_witness:
  "PMMG_adja_idx_of_face mesh2 1 2 = Some 9
   \<and> PMMG_adja_tetra_to_face mesh2 1 2 = Some 2
   \<and> PMMG_adja_face_to_face mesh2 1 2 = Some 1"
proof -
  have idx: "PMMG_adja_idx_of_face mesh2 1 2 = Some 9"
    by (simp add: PMMG_adja_idx_of_face_def c_int_def array_read_def INT_MIN_def INT_MAX_def
        mesh2_def)
  have "\<exists>idx t f.
           PMMG_adja_idx_of_face mesh2 1 2 = Some idx
         \<and> PMMG_adja_tetra_to_face mesh2 1 2 = Some t
         \<and> PMMG_adja_face_to_face mesh2 1 2 = Some f
         \<and> 4 * t + f = idx \<and> t = idx sdiv 4 \<and> f = idx smod 4"
    by (rule adja_decomposition) (simp_all add: mesh2_def INT_MAX_def)
  with idx show ?thesis
    by (auto simp add: signed_divide_int_def signed_modulo_int_def)
qed

section \<open>Properties of the memory-accounting macros\<close>





text \<open>
  C8 at a concrete sequence: ten bytes are allocated and accounted, then the block is
  released with a size of twenty. \<^verbatim>\<open>MEM_CHK_AVAIL\<close> notices that more is freed than was
  allocated, writes its diagnostic, and sets the status to \<open>PMMG_SUCCESS\<close>; the guarded
  update of \<^verbatim>\<open>PMMG_DEL_MEM\<close> then takes place and \<open>memCur\<close> is \<open>- 10\<close>.
\<close>

theorem over_free_drives_memCur_negative:
  "mem_run libc_ok mem100 [Malloc 10 1, Del_mem (Some 1) 20 1]
     = Some \<lparr>memMax = 100, memCur = - 10\<rparr>"
  by (simp add: PMMG_MALLOC_def PMMG_DEL_MEM_def MEM_CHK_AVAIL_def long_long_def
      libc_ok_def mem100_def PMMG_SUCCESS_def PMMG_FAILURE_def)

section \<open>The loops of the cleanup macro\<close>

lemma clean_sol_loop_Some:
  "clean_sol_loop k n sols = Some sols' \<Longrightarrow> 0 \<le> k \<Longrightarrow>
     length sols' = length sols
   \<and> (\<forall>j < length sols. sols' ! j =
        (if k \<le> int j \<and> int j < n then (sols ! j)\<lparr>sol_npi := sol_np (sols ! j)\<rparr>
         else sols ! j))"
proof (induction k n sols arbitrary: sols' rule: clean_sol_loop.induct)
  case (1 ksol n sols)
  show ?case
  proof (cases "ksol < n")
    case False
    with "1.prems" show ?thesis by (simp add: clean_sol_loop.simps [of ksol n sols])
  next
    case True
    with "1.prems" obtain s where s: "array_read sols ksol = Some s"
      and rec: "clean_sol_loop (ksol + 1) n (sols[nat ksol := s\<lparr>sol_npi := sol_np s\<rparr>]) = Some sols'"
      by (auto simp add: clean_sol_loop.simps [of ksol n sols] split: option.splits)
    from s "1.prems" have bnd: "nat ksol < length sols" and sv: "s = sols ! nat ksol"
      by (auto simp add: array_read_def split: if_splits)
    from "1.IH" [OF True s rec] "1.prems"
    have IH: "length sols' = length sols"
      "\<forall>j < length sols. sols' ! j =
        (if ksol + 1 \<le> int j \<and> int j < n
         then ((sols[nat ksol := s\<lparr>sol_npi := sol_np s\<rparr>]) ! j)
                \<lparr>sol_npi := sol_np ((sols[nat ksol := s\<lparr>sol_npi := sol_np s\<rparr>]) ! j)\<rparr>
         else (sols[nat ksol := s\<lparr>sol_npi := sol_np s\<rparr>]) ! j)"
      by simp_all
    show ?thesis
    proof (intro conjI allI impI)
      show "length sols' = length sols" by (fact IH)
    next
      fix j assume j: "j < length sols"
      show "sols' ! j =
        (if ksol \<le> int j \<and> int j < n then (sols ! j)\<lparr>sol_npi := sol_np (sols ! j)\<rparr>
         else sols ! j)"
      proof (cases "j = nat ksol")
        case True
        with IH(2) j "1.prems" \<open>ksol < n\<close> sv bnd show ?thesis by simp
      next
        case False
        with IH(2) j "1.prems" show ?thesis by (auto simp add: nth_list_update)
      qed
    qed
  qed
qed

lemma clean_sol_loop_total:
  "0 \<le> k \<Longrightarrow> n \<le> int (length sols) \<Longrightarrow> \<exists>sols'. clean_sol_loop k n sols = Some sols'"
proof (induction k n sols rule: clean_sol_loop.induct)
  case (1 ksol n sols)
  show ?case
  proof (cases "ksol < n")
    case False
    then show ?thesis by (simp add: clean_sol_loop.simps [of ksol n sols])
  next
    case True
    with "1.prems" have s: "array_read sols ksol = Some (sols ! nat ksol)"
      by (simp add: array_read_def)
    from "1.IH" [OF True s] "1.prems" True s show ?thesis
      by (simp add: clean_sol_loop.simps [of ksol n sols])
  qed
qed

lemma clean_grp_Some:
  assumes "clean_grp g = Some g'"
  shows "mesh g' = map_option (\<lambda>m. m\<lparr>npi := np m, nti := nt m, nai := na m, nei := ne m\<rparr>) (mesh g)"
    and "met g' = map_option (\<lambda>s. s\<lparr>sol_npi := sol_np s\<rparr>) (met g)"
    and "length (sol g') = length (sol g)"
    and "\<forall>j < length (sol g). sol g' ! j =
           (if (\<exists>m. mesh g = Some m \<and> int j < nsols m)
            then (sol g ! j)\<lparr>sol_npi := sol_np (sol g ! j)\<rparr> else sol g ! j)"
proof -
  show "mesh g' = map_option (\<lambda>m. m\<lparr>npi := np m, nti := nt m, nai := na m, nei := ne m\<rparr>) (mesh g)"
    and "met g' = map_option (\<lambda>s. s\<lparr>sol_npi := sol_np s\<rparr>) (met g)"
    using assms by (auto simp add: clean_grp_def Let_def split: option.splits)
  show "length (sol g') = length (sol g)"
    using assms
    by (auto simp add: clean_grp_def Let_def split: option.splits dest!: clean_sol_loop_Some)
  show "\<forall>j < length (sol g). sol g' ! j =
           (if (\<exists>m. mesh g = Some m \<and> int j < nsols m)
            then (sol g ! j)\<lparr>sol_npi := sol_np (sol g ! j)\<rparr> else sol g ! j)"
    using assms
    by (auto simp add: clean_grp_def Let_def split: option.splits dest!: clean_sol_loop_Some)
qed

lemma clean_grp_total:
  "(\<And>m. mesh g = Some m \<Longrightarrow> nsols m \<le> int (length (sol g))) \<Longrightarrow> \<exists>g'. clean_grp g = Some g'"
  using clean_sol_loop_total [of 0 _ "sol g"]
  by (fastforce simp add: clean_grp_def Let_def split: option.splits)

lemma clean_grp_loop_Some:
  "clean_grp_loop k p = Some p' \<Longrightarrow> 0 \<le> k \<Longrightarrow>
     p'\<lparr>listgrp := listgrp p\<rparr> = p
   \<and> length (listgrp p') = length (listgrp p)
   \<and> (\<forall>j < length (listgrp p).
        if k \<le> int j \<and> int j < ngrp p then clean_grp (listgrp p ! j) = Some (listgrp p' ! j)
        else listgrp p' ! j = listgrp p ! j)"
proof (induction k p arbitrary: p' rule: clean_grp_loop.induct)
  case (1 kgrp p)
  show ?case
  proof (cases "kgrp < ngrp p")
    case False
    with "1.prems" show ?thesis by (auto simp add: clean_grp_loop.simps [of kgrp p])
  next
    case True
    with "1.prems" obtain g g' where g: "array_read (listgrp p) kgrp = Some g"
      and g': "clean_grp g = Some g'"
      and rec: "clean_grp_loop (kgrp + 1) (p\<lparr>listgrp := (listgrp p)[nat kgrp := g']\<rparr>) = Some p'"
      by (auto simp add: clean_grp_loop.simps [of kgrp p] split: option.splits)
    from g "1.prems" have bnd: "nat kgrp < length (listgrp p)" and gv: "g = listgrp p ! nat kgrp"
      by (auto simp add: array_read_def split: if_splits)
    let ?q = "p\<lparr>listgrp := (listgrp p)[nat kgrp := g']\<rparr>"
    from "1.prems" have pre: "0 \<le> kgrp + 1" by simp
    note IH = "1.IH" [OF True g g' rec pre]
    from IH have IH1: "p'\<lparr>listgrp := listgrp ?q\<rparr> = ?q"
      and IH2: "length (listgrp p') = length (listgrp ?q)"
      and IH3: "\<And>j. j < length (listgrp ?q) \<Longrightarrow>
        if kgrp + 1 \<le> int j \<and> int j < ngrp ?q
        then clean_grp (listgrp ?q ! j) = Some (listgrp p' ! j)
        else listgrp p' ! j = listgrp ?q ! j"
      by blast+
    show ?thesis
    proof (intro conjI allI impI)
      have "p'\<lparr>listgrp := listgrp p\<rparr> = (p'\<lparr>listgrp := listgrp ?q\<rparr>)\<lparr>listgrp := listgrp p\<rparr>"
        by simp
      also have "\<dots> = ?q\<lparr>listgrp := listgrp p\<rparr>"
        by (simp only: IH1)
      also have "\<dots> = p" by simp
      finally show "p'\<lparr>listgrp := listgrp p\<rparr> = p" .
      from IH2 show "length (listgrp p') = length (listgrp p)" by simp
    next
      fix j assume j: "j < length (listgrp p)"
      then have j': "j < length (listgrp ?q)" by simp
      show "if kgrp \<le> int j \<and> int j < ngrp p then clean_grp (listgrp p ! j) = Some (listgrp p' ! j)
        else listgrp p' ! j = listgrp p ! j"
      proof (cases "j = nat kgrp")
        case True
        with IH3 [OF j'] j "1.prems" \<open>kgrp < ngrp p\<close> gv g' bnd show ?thesis by simp
      next
        case False
        with IH3 [OF j'] j "1.prems" show ?thesis
          by (auto simp add: nth_list_update split: if_splits)
      qed
    qed
  qed
qed

lemma clean_grp_loop_total:
  "0 \<le> k \<Longrightarrow> ngrp p \<le> int (length (listgrp p)) \<Longrightarrow>
   (\<forall>j. k \<le> int j \<and> int j < ngrp p \<longrightarrow> clean_grp (listgrp p ! j) \<noteq> None) \<Longrightarrow>
   \<exists>p'. clean_grp_loop k p = Some p'"
proof (induction k p rule: clean_grp_loop.induct)
  case (1 kgrp p)
  show ?case
  proof (cases "kgrp < ngrp p")
    case False
    then show ?thesis by (simp add: clean_grp_loop.simps [of kgrp p])
  next
    case True
    with "1.prems" have g: "array_read (listgrp p) kgrp = Some (listgrp p ! nat kgrp)"
      by (simp add: array_read_def)
    from "1.prems" True obtain g' where g': "clean_grp (listgrp p ! nat kgrp) = Some g'"
      by (metis int_nat_eq not_Some_eq order_refl)
    have "\<exists>p'. clean_grp_loop (kgrp + 1) (p\<lparr>listgrp := (listgrp p)[nat kgrp := g']\<rparr>) = Some p'"
    proof (rule "1.IH" [OF True g g'])
      show "0 \<le> kgrp + 1" using "1.prems" by simp
      show "ngrp (p\<lparr>listgrp := (listgrp p)[nat kgrp := g']\<rparr>)
            \<le> int (length (listgrp (p\<lparr>listgrp := (listgrp p)[nat kgrp := g']\<rparr>)))"
        using "1.prems" by simp
      show "\<forall>j. kgrp + 1 \<le> int j \<and> int j < ngrp (p\<lparr>listgrp := (listgrp p)[nat kgrp := g']\<rparr>) \<longrightarrow>
        clean_grp (listgrp (p\<lparr>listgrp := (listgrp p)[nat kgrp := g']\<rparr>) ! j) \<noteq> None"
        using "1.prems" by (auto simp add: nth_list_update)
    qed
    with True g g' show ?thesis by (simp add: clean_grp_loop.simps [of kgrp p])
  qed
qed

lemma allocated_clean_grp:
  assumes "allocated p" and "int j < ngrp p"
  shows "clean_grp (listgrp p ! j) \<noteq> None"
proof -
  from assms have j: "j < length (take (nat (ngrp p)) (listgrp p))"
    by (simp add: allocated_def)
  from assms have "list_all (\<lambda>g. case mesh g of None \<Rightarrow> True | Some m \<Rightarrow> nsols m \<le> int (length (sol g)))
       (take (nat (ngrp p)) (listgrp p))"
    by (simp add: allocated_def)
  with j have "case mesh (take (nat (ngrp p)) (listgrp p) ! j) of None \<Rightarrow> True
                | Some m \<Rightarrow> nsols m \<le> int (length (sol (take (nat (ngrp p)) (listgrp p) ! j)))"
    by (simp add: list_all_length)
  with j have "\<And>m. mesh (listgrp p ! j) = Some m \<Longrightarrow> nsols m \<le> int (length (sol (listgrp p ! j)))"
    by simp
  then show ?thesis using clean_grp_total [of "listgrp p ! j"] by auto
qed

lemma cleanup_total:
  "allocated p \<Longrightarrow> \<exists>p'. PMMG_CLEAN_AND_RETURN p val = Some (val, p')"
  using clean_grp_loop_total [of 0 p] allocated_clean_grp [of p]
  by (auto simp add: PMMG_CLEAN_AND_RETURN_def allocated_def)

section \<open>The loop of the input check\<close>

lemma check_inputData_grp_messages:
  "ev \<in> set (fst (check_inputData_grp e m s)) \<Longrightarrow> \<exists>txt. ev = Message txt"
  by (auto simp add: check_inputData_grp_def Let_def split: if_splits prod.splits)

lemma check_inputData_grp_rejects:
  assumes "lag (info m) > - 1 \<or> iso (info m) \<noteq> 0
         \<or> (optimLES (info m) \<noteq> 0 \<and> sol_size s = 6)
         \<or> (sol_np s \<noteq> 0 \<and> optim (info m) \<noteq> 0)
         \<or> (sol_np s \<noteq> 0 \<and> hsiz (info m) > 0)
         \<or> (optim (info m) \<noteq> 0 \<and> hsiz (info m) > 0)
         \<or> (sol_size s \<noteq> 1 \<and> sol_size s \<noteq> 6
             \<and> (sol_np s = 0 \<or> sol_np s = np (MMG5_warnOrientation e m)))"
  shows "\<exists>txt m' s'. check_inputData_grp e m s = ([Message txt], False, m', s')"
  using assms
  by (auto simp add: check_inputData_grp_def Let_def split: prod.splits)

lemma check_inputData_loop_result:
  "check_inputData_loop e k p out = Some (msgs, ier, p1) \<Longrightarrow>
     (ier = 0 \<or> ier = 1)
   \<and> (\<exists>more. msgs = out @ more \<and> (\<forall>ev \<in> set more. \<exists>txt. ev = Message txt)
        \<and> (ier = 0 \<longrightarrow> more \<noteq> []))"
proof (induction e k p out arbitrary: msgs ier p1 rule: check_inputData_loop.induct)
  case (1 e k p out)
  show ?case
  proof (cases "k < ngrp p")
    case False
    with "1.prems" show ?thesis by (simp add: check_inputData_loop.simps [of e k p out])
  next
    case True
    with "1.prems" obtain g m s where g: "array_read (listgrp p) k = Some g"
      and m: "mesh g = Some m" and s: "met g = Some s"
      by (auto simp add: check_inputData_loop.simps [of e k p out] split: option.splits)
    obtain ms ok m' s' where c: "check_inputData_grp e m s = (ms, ok, m', s')"
      by (cases "check_inputData_grp e m s") auto
    have ms: "\<forall>ev \<in> set ms. \<exists>txt. ev = Message txt"
      using check_inputData_grp_messages [of _ e m s] c by simp
    show ?thesis
    proof (cases ok)
      case False
      with "1.prems" True g m s c have "msgs = out @ ms" "ier = 0"
        by (simp_all add: check_inputData_loop.simps [of e k p out])
      moreover from False c have "ms \<noteq> []"
        by (auto simp add: check_inputData_grp_def Let_def split: if_splits prod.splits)
      ultimately show ?thesis using ms by simp
    next
      case ok: True
      with "1.prems" True g m s c
      have rec: "check_inputData_loop e (k + 1)
                   (p\<lparr>listgrp := (listgrp p)[nat k := g\<lparr>mesh := Some m', met := Some s'\<rparr>]\<rparr>)
                   (out @ ms) = Some (msgs, ier, p1)"
        by (simp add: check_inputData_loop.simps [of e k p out])
      from "1.IH" [OF True g m s c [symmetric] refl refl ok rec]
      obtain more where "ier = 0 \<or> ier = 1" "msgs = (out @ ms) @ more"
        "\<forall>ev \<in> set more. \<exists>txt. ev = Message txt" "ier = 0 \<longrightarrow> more \<noteq> []"
        by blast
      with ms show ?thesis
        by (intro conjI exI [of _ "ms @ more"]) auto
    qed
  qed
qed

lemma check_inputData_loop_rejects:
  "check_inputData_loop e k p out = Some (msgs, ier, p1) \<Longrightarrow> 0 \<le> k \<Longrightarrow>
   k \<le> int j \<Longrightarrow> int j < ngrp p \<Longrightarrow> j < length (listgrp p) \<Longrightarrow>
   mesh (listgrp p ! j) = Some m \<Longrightarrow> met (listgrp p ! j) = Some s \<Longrightarrow>
   fst (snd (check_inputData_grp e m s)) = False \<Longrightarrow> ier = 0"
proof (induction e k p out arbitrary: msgs ier p1 rule: check_inputData_loop.induct)
  case (1 e k p out)
  from "1.prems" have True: "k < ngrp p" by simp
  with "1.prems"(1) obtain g m0 s0 where g: "array_read (listgrp p) k = Some g"
    and m0: "mesh g = Some m0" and s0: "met g = Some s0"
    by (auto simp add: check_inputData_loop.simps [of e k p out] split: option.splits)
  from g "1.prems" have gv: "g = listgrp p ! nat k"
    by (auto simp add: array_read_def split: if_splits)
  obtain ms ok m' s' where c: "check_inputData_grp e m0 s0 = (ms, ok, m', s')"
    by (cases "check_inputData_grp e m0 s0") auto
  show ?case
  proof (cases ok)
    case False
    with "1.prems"(1) True g m0 s0 c show ?thesis
      by (simp add: check_inputData_loop.simps [of e k p out])
  next
    case ok: True
    with "1.prems"(1) True g m0 s0 c
    have rec: "check_inputData_loop e (k + 1)
                 (p\<lparr>listgrp := (listgrp p)[nat k := g\<lparr>mesh := Some m', met := Some s'\<rparr>]\<rparr>)
                 (out @ ms) = Some (msgs, ier, p1)"
      by (simp add: check_inputData_loop.simps [of e k p out])
    have "j \<noteq> nat k"
    proof
      assume "j = nat k"
      with gv "1.prems" m0 s0 c ok show False by simp
    qed
    with "1.prems" have j: "k + 1 \<le> int j" by linarith
    show ?thesis
    proof (rule "1.IH" [OF True g m0 s0 c [symmetric] refl refl ok rec])
      show "0 \<le> k + 1" using "1.prems" by simp
      show "k + 1 \<le> int j" by (fact j)
      show "int j < ngrp (p\<lparr>listgrp := (listgrp p)[nat k := g\<lparr>mesh := Some m', met := Some s'\<rparr>]\<rparr>)"
        using "1.prems" by simp
      show "j < length (listgrp (p\<lparr>listgrp := (listgrp p)[nat k := g\<lparr>mesh := Some m', met := Some s'\<rparr>]\<rparr>))"
        using "1.prems" by simp
      show "mesh (listgrp (p\<lparr>listgrp := (listgrp p)[nat k := g\<lparr>mesh := Some m', met := Some s'\<rparr>]\<rparr>) ! j) = Some m"
        using "1.prems" \<open>j \<noteq> nat k\<close> by simp
      show "met (listgrp (p\<lparr>listgrp := (listgrp p)[nat k := g\<lparr>mesh := Some m', met := Some s'\<rparr>]\<rparr>) ! j) = Some s"
        using "1.prems" \<open>j \<noteq> nat k\<close> by simp
      show "fst (snd (check_inputData_grp e m s)) = False" using "1.prems" by simp
    qed
  qed
qed

section \<open>The cleanup macro sets the initial counters\<close>

text \<open>
  C10. On a parmesh whose arrays hold what its counters announce, the cleanup macro
  returns the value it is given. Whenever it returns: in each of the first \<open>ngrp\<close> groups
  the mesh, when there is one, is the mesh before the cleanup with \<open>npi, nti, nai, nei\<close>
  set to \<open>np, nt, na, ne\<close>; the metric, when there is one, is the metric before with
  \<open>npi\<close> set to \<open>np\<close>; the first \<open>nsols\<close> solutions of a group with a mesh have their
  \<open>npi\<close> set to their \<open>np\<close>; every other solution, every other group and every other
  field of the parmesh is as before. The entry points return through the macro by
  \<open>clean_and_return\<close>, with the trace unchanged.
\<close>

theorem cleanup_sets_initial_counters:
  "(allocated p \<longrightarrow> (\<exists>p'. PMMG_CLEAN_AND_RETURN p val = Some (val, p')))
   \<and> (\<forall>v p'. PMMG_CLEAN_AND_RETURN p val = Some (v, p') \<longrightarrow>
         v = val \<and> p'\<lparr>listgrp := listgrp p\<rparr> = p
       \<and> length (listgrp p') = length (listgrp p)
       \<and> (\<forall>k < length (listgrp p).
             if int k < ngrp p then
               mesh (listgrp p' ! k)
                 = map_option (\<lambda>m. m\<lparr>npi := np m, nti := nt m, nai := na m, nei := ne m\<rparr>)
                     (mesh (listgrp p ! k))
             \<and> met (listgrp p' ! k)
                 = map_option (\<lambda>s. s\<lparr>sol_npi := sol_np s\<rparr>) (met (listgrp p ! k))
             \<and> length (sol (listgrp p' ! k)) = length (sol (listgrp p ! k))
             \<and> (\<forall>j < length (sol (listgrp p ! k)).
                   sol (listgrp p' ! k) ! j =
                     (if (\<exists>m. mesh (listgrp p ! k) = Some m \<and> int j < nsols m)
                      then (sol (listgrp p ! k) ! j)\<lparr>sol_npi := sol_np (sol (listgrp p ! k) ! j)\<rparr>
                      else sol (listgrp p ! k) ! j))
             else listgrp p' ! k = listgrp p ! k))
   \<and> (\<forall>tr c p' tr'. clean_and_return p tr val = Return c p' tr' \<longrightarrow>
         PMMG_CLEAN_AND_RETURN p val = Some (c, p') \<and> tr' = tr)"
proof (intro conjI allI impI)
  assume "allocated p"
  then show "\<exists>p'. PMMG_CLEAN_AND_RETURN p val = Some (val, p')" by (rule cleanup_total)
next
  fix v p' assume "PMMG_CLEAN_AND_RETURN p val = Some (v, p')"
  then have v: "v = val" and loop: "clean_grp_loop 0 p = Some p'"
    by (auto simp add: PMMG_CLEAN_AND_RETURN_def)
  from clean_grp_loop_Some [OF loop]
  have frame: "p'\<lparr>listgrp := listgrp p\<rparr> = p"
    and len: "length (listgrp p') = length (listgrp p)"
    and grp: "\<And>k. k < length (listgrp p) \<Longrightarrow>
        if 0 \<le> int k \<and> int k < ngrp p then clean_grp (listgrp p ! k) = Some (listgrp p' ! k)
        else listgrp p' ! k = listgrp p ! k"
    by simp_all
  show "v = val" by (fact v)
  show "p'\<lparr>listgrp := listgrp p\<rparr> = p" by (fact frame)
  show "length (listgrp p') = length (listgrp p)" by (fact len)
  fix k assume k: "k < length (listgrp p)"
  show "if int k < ngrp p then
               mesh (listgrp p' ! k)
                 = map_option (\<lambda>m. m\<lparr>npi := np m, nti := nt m, nai := na m, nei := ne m\<rparr>)
                     (mesh (listgrp p ! k))
             \<and> met (listgrp p' ! k)
                 = map_option (\<lambda>s. s\<lparr>sol_npi := sol_np s\<rparr>) (met (listgrp p ! k))
             \<and> length (sol (listgrp p' ! k)) = length (sol (listgrp p ! k))
             \<and> (\<forall>j < length (sol (listgrp p ! k)).
                   sol (listgrp p' ! k) ! j =
                     (if (\<exists>m. mesh (listgrp p ! k) = Some m \<and> int j < nsols m)
                      then (sol (listgrp p ! k) ! j)\<lparr>sol_npi := sol_np (sol (listgrp p ! k) ! j)\<rparr>
                      else sol (listgrp p ! k) ! j))
             else listgrp p' ! k = listgrp p ! k"
  proof (cases "int k < ngrp p")
    case True
    with grp [OF k] have "clean_grp (listgrp p ! k) = Some (listgrp p' ! k)" by simp
    from clean_grp_Some [OF this] True show ?thesis by simp
  next
    case False
    with grp [OF k] show ?thesis by simp
  qed
next
  fix tr c p' tr' assume "clean_and_return p tr val = Return c p' tr'"
  then show "PMMG_CLEAN_AND_RETURN p val = Some (c, p')" and "tr' = tr"
    by (auto simp add: clean_and_return_def split: option.splits)
qed

theorem cleanup_sets_initial_counters_witness:
  "allocated parmesh_with_solution
   \<and> (\<exists>p'. PMMG_CLEAN_AND_RETURN parmesh_with_solution PMMG_LOWFAILURE = Some (PMMG_LOWFAILURE, p')
          \<and> map_option npi (mesh (listgrp p' ! 0)) = Some 5
          \<and> map_option nei (mesh (listgrp p' ! 0)) = Some 2
          \<and> map_option sol_npi (met (listgrp p' ! 0)) = Some 5
          \<and> sol_npi (sol (listgrp p' ! 0) ! 0) = 5
          \<and> mesh (listgrp p' ! 1) = None)"
proof -
  have al: "allocated parmesh_with_solution"
    by (simp add: allocated_def parmesh_with_solution_def)
  note inst = cleanup_sets_initial_counters [of parmesh_with_solution PMMG_LOWFAILURE]
  from inst al obtain p' where
    p': "PMMG_CLEAN_AND_RETURN parmesh_with_solution PMMG_LOWFAILURE = Some (PMMG_LOWFAILURE, p')"
    by blast
  have len: "length (listgrp parmesh_with_solution) = 2" "ngrp parmesh_with_solution = 2"
    by (simp_all add: parmesh_with_solution_def)
  from inst p' have grp: "\<forall>k < length (listgrp parmesh_with_solution).
             if int k < ngrp parmesh_with_solution then
               mesh (listgrp p' ! k)
                 = map_option (\<lambda>m. m\<lparr>npi := np m, nti := nt m, nai := na m, nei := ne m\<rparr>)
                     (mesh (listgrp parmesh_with_solution ! k))
             \<and> met (listgrp p' ! k)
                 = map_option (\<lambda>s. s\<lparr>sol_npi := sol_np s\<rparr>) (met (listgrp parmesh_with_solution ! k))
             \<and> length (sol (listgrp p' ! k)) = length (sol (listgrp parmesh_with_solution ! k))
             \<and> (\<forall>j < length (sol (listgrp parmesh_with_solution ! k)).
                   sol (listgrp p' ! k) ! j =
                     (if (\<exists>m. mesh (listgrp parmesh_with_solution ! k) = Some m \<and> int j < nsols m)
                      then (sol (listgrp parmesh_with_solution ! k) ! j)\<lparr>sol_npi := sol_np (sol (listgrp parmesh_with_solution ! k) ! j)\<rparr>
                      else sol (listgrp parmesh_with_solution ! k) ! j))
             else listgrp p' ! k = listgrp parmesh_with_solution ! k"
    by blast
  from grp [rule_format, of 0] grp [rule_format, of 1]
  have "map_option npi (mesh (listgrp p' ! 0)) = Some 5
          \<and> map_option nei (mesh (listgrp p' ! 0)) = Some 2
          \<and> map_option sol_npi (met (listgrp p' ! 0)) = Some 5
          \<and> sol_npi (sol (listgrp p' ! 0) ! 0) = 5
          \<and> mesh (listgrp p' ! 1) = None"
    by (simp add: parmesh_with_solution_def mesh2_def met0_def)
  with al p' show ?thesis by blast
qed

section \<open>Collective reductions\<close>

lemma reduce_MIN: "vs \<noteq> [] \<Longrightarrow> reduce MPI_MIN vs = Min (set vs)"
proof (cases vs)
  case (Cons v rest)
  then show ?thesis by (simp only: reduce.simps Min.set_eq_fold)
qed simp


lemma collective_all_pending:
  "ss \<noteq> [] \<Longrightarrow> \<forall>s \<in> set ss. pending s = Some opr \<Longrightarrow> collective ss = Some opr"
  by (cases ss) (simp_all add: collective_def list_all_iff)

lemma collective_none_pending:
  "\<forall>s \<in> set ss. pending s = None \<Longrightarrow> collective ss = None"
  by (cases ss) (simp_all add: collective_def)

lemma out_of_rounds_conclude: "pending s = None \<Longrightarrow> out_of_rounds s = conclude s"
  by (cases s) simp_all

lemma mpi_run_final:
  "\<forall>s \<in> set ss. pending s = None \<Longrightarrow> mpi_run n ss = map conclude ss"
  by (cases n) (simp_all add: mpi_run.simps collective_none_pending out_of_rounds_conclude)

lemma mpi_run_reduce:
  "ss \<noteq> [] \<Longrightarrow> \<forall>s \<in> set ss. pending s = Some opr \<Longrightarrow>
   mpi_run (Suc n) ss = mpi_run n (map (resume (reduce opr (map contribution ss))) ss)"
  using collective_all_pending [of ss opr] by (simp add: mpi_run.simps)

lemma mpi_run_one_round:
  assumes "ss \<noteq> []" and "\<forall>s \<in> set ss. pending s = Some opr"
    and "\<forall>s \<in> set ss. pending (resume (reduce opr (map contribution ss)) s) = None"
    and "j < length ss"
  shows "mpi_run (Suc n) ss ! j = conclude (resume (reduce opr (map contribution ss)) (ss ! j))"
proof -
  have "mpi_run (Suc n) ss = map conclude (map (resume (reduce opr (map contribution ss))) ss)"
    using assms mpi_run_reduce [of ss opr n]
      mpi_run_final [of "map (resume (reduce opr (map contribution ss))) ss" n]
    by simp
  with assms(4) show ?thesis by simp
qed

lemma length_mpi_run [simp]: "length (mpi_run n ss) = length ss"
  by (induction n arbitrary: ss) (simp_all add: mpi_run.simps split: option.splits)

lemma mpi_run_ends:
  "j < length ss \<Longrightarrow> ends (ss ! j) (mpi_run n ss ! j)"
proof (induction n arbitrary: ss)
  case 0
  then show ?case by (cases "ss ! j") (auto simp add: mpi_run.simps intro: ends.intros)
next
  case (Suc n)
  show ?case
  proof (cases "collective ss")
    case None
    with Suc.prems show ?thesis
      by (cases "ss ! j") (auto simp add: mpi_run.simps intro: ends.intros)
  next
    case (Some opr)
    let ?r = "reduce opr (map contribution ss)"
    from Suc.IH [of "map (resume ?r) ss"] Suc.prems
    have "ends (resume ?r (ss ! j)) (mpi_run n (map (resume ?r) ss) ! j)" by simp
    with Some show ?thesis
      by (cases "ss ! j") (auto simp add: mpi_run.simps intro: ends.intros)
  qed
qed

section \<open>The input check stops every process\<close>

lemma centralized_at_check:
  assumes "PMMG_check_inputData e p = Some (msgs, ier, p1)"
  shows "pending (PMMG_parmmglib_centralized e p) = Some MPI_MIN"
    and "contribution (PMMG_parmmglib_centralized e p) = ier"
    and "resume r (PMMG_parmmglib_centralized e p)
         = centralized_phase1 e r p1 ([Call check_inputData] @ msgs @ [Allreduce MPI_MIN ier r])"
  using assms by (simp_all add: PMMG_parmmglib_centralized_def)

lemma distributed_at_check:
  assumes "PMMG_check_inputData e p = Some (msgs, ier, p1)"
  shows "pending (PMMG_parmmglib_distributed e p) = Some MPI_MIN"
    and "contribution (PMMG_parmmglib_distributed e p) = ier"
    and "resume r (PMMG_parmmglib_distributed e p)
         = distributed_phase1 e r p1 ([Call check_inputData] @ msgs @ [Allreduce MPI_MIN ier r])"
  using assms by (simp_all add: PMMG_parmmglib_distributed_def)

lemma check_inputData_result:
  assumes "PMMG_check_inputData e p = Some (msgs, ier, p1)"
  shows "ier = 0 \<or> ier = 1" and "\<forall>ev \<in> set msgs. \<exists>txt. ev = Message txt"
    and "ier = 0 \<Longrightarrow> msgs \<noteq> []"
  using check_inputData_loop_result [of e 0 p "[]" msgs ier p1] assms
  by (auto simp add: PMMG_check_inputData_def)

lemma check_inputData_rejects:
  assumes "PMMG_check_inputData e p = Some (msgs, ier, p1)"
    and "k < length (listgrp p)" and "int k < ngrp p"
    and "mesh (listgrp p ! k) = Some m" and "met (listgrp p ! k) = Some s"
    and "lag (info m) > - 1 \<or> iso (info m) \<noteq> 0
         \<or> (optimLES (info m) \<noteq> 0 \<and> sol_size s = 6)
         \<or> (sol_np s \<noteq> 0 \<and> optim (info m) \<noteq> 0)
         \<or> (sol_np s \<noteq> 0 \<and> hsiz (info m) > 0)
         \<or> (optim (info m) \<noteq> 0 \<and> hsiz (info m) > 0)
         \<or> (sol_size s \<noteq> 1 \<and> sol_size s \<noteq> 6
             \<and> (sol_np s = 0 \<or> sol_np s = np (MMG5_warnOrientation e m)))"
  shows "ier = 0"
proof -
  from check_inputData_grp_rejects [OF assms(6)]
  have "fst (snd (check_inputData_grp e m s)) = False" by auto
  with check_inputData_loop_rejects [of e 0 p "[]" msgs ier p1 k m s] assms
  show ?thesis by (simp add: PMMG_check_inputData_def)
qed

text \<open>When the check fails somewhere, the minimum that every process receives is 0.\<close>

lemma reduce_MIN_zero:
  assumes "\<forall>v \<in> set vs. v = 0 \<or> v = (1::int)" and "0 \<in> set vs"
  shows "reduce MPI_MIN vs = 0"
proof -
  from assms(2) have ne: "vs \<noteq> []" by auto
  have "Min (set vs) = 0"
    by (rule Min_eqI) (use assms in auto)
  with ne show ?thesis by (simp add: reduce_MIN)
qed

lemma failed_check_round:
  fixes procs :: "(ext \<times> PMMG_ParMesh) list"
  assumes ok: "\<forall>(e, p) \<in> set procs. PMMG_check_inputData e p \<noteq> None"
    and i: "i < length procs" "procs ! i = (e, p)"
    and zero: "PMMG_check_inputData e p = Some (msgs, 0, p1)"
    and j: "j < length procs" "procs ! j = (e', p')"
        "PMMG_check_inputData e' p' = Some (msgs', ier', q)"
  shows "mpi_run (Suc n) (map (\<lambda>(e, p). PMMG_parmmglib_centralized e p) procs) ! j
           = Returned PMMG_LOWFAILURE q ([Call check_inputData] @ msgs' @ [Allreduce MPI_MIN ier' 0])"
    and "mpi_run (Suc n) (map (\<lambda>(e, p). PMMG_parmmglib_distributed e p) procs) ! j
           = Returned PMMG_LOWFAILURE q ([Call check_inputData] @ msgs' @ [Allreduce MPI_MIN ier' 0])"
proof -
  let ?C = "map (\<lambda>(e, p). PMMG_parmmglib_centralized e p) procs"
  let ?D = "map (\<lambda>(e, p). PMMG_parmmglib_distributed e p) procs"
  from i have ne: "?C \<noteq> []" "?D \<noteq> []" by auto
  have each: "\<exists>msgs ier p1. PMMG_check_inputData e p = Some (msgs, ier, p1)"
    if "(e, p) \<in> set procs" for e p
    using ok that by fastforce
  have pc: "\<forall>s \<in> set ?C. pending s = Some MPI_MIN"
  proof clarsimp
    fix e p assume "(e, p) \<in> set procs"
    from each [OF this] obtain msgs ier p1
      where "PMMG_check_inputData e p = Some (msgs, ier, p1)" by blast
    then show "pending (PMMG_parmmglib_centralized e p) = Some MPI_MIN"
      by (rule centralized_at_check)
  qed
  have pd: "\<forall>s \<in> set ?D. pending s = Some MPI_MIN"
  proof clarsimp
    fix e p assume "(e, p) \<in> set procs"
    from each [OF this] obtain msgs ier p1
      where "PMMG_check_inputData e p = Some (msgs, ier, p1)" by blast
    then show "pending (PMMG_parmmglib_distributed e p) = Some MPI_MIN"
      by (rule distributed_at_check)
  qed
  have vc: "\<forall>v \<in> set (map contribution ?C). v = 0 \<or> v = 1"
  proof
    fix v assume "v \<in> set (map contribution ?C)"
    then obtain e p where ep: "(e, p) \<in> set procs"
      and v: "v = contribution (PMMG_parmmglib_centralized e p)" by auto
    from each [OF ep] obtain msgs ier p1 where c: "PMMG_check_inputData e p = Some (msgs, ier, p1)"
      by blast
    with v check_inputData_result(1) [OF c] show "v = 0 \<or> v = 1"
      by (simp add: centralized_at_check)
  qed
  have vd: "map contribution ?D = map contribution ?C"
  proof (rule map_ext [THEN trans [OF map_map trans [OF _ map_map [symmetric]]]], rule impI)
    fix x :: "ext \<times> PMMG_ParMesh" assume "x \<in> set procs"
    with each [of "fst x" "snd x"] obtain msgs ier p1
      where c: "PMMG_check_inputData (fst x) (snd x) = Some (msgs, ier, p1)" by auto
    then show "(contribution \<circ> (\<lambda>(e, p). PMMG_parmmglib_distributed e p)) x
             = (contribution \<circ> (\<lambda>(e, p). PMMG_parmmglib_centralized e p)) x"
      by (cases x) (simp add: centralized_at_check distributed_at_check)
  qed
  from i zero have "contribution (?C ! i) = 0" by (simp add: centralized_at_check)
  with i have "0 \<in> set (map contribution ?C)"
    by (metis length_map nth_map nth_mem)
  with vc have rc: "reduce MPI_MIN (map contribution ?C) = 0" by (rule reduce_MIN_zero)
  have rd: "reduce MPI_MIN (map contribution ?D) = 0"
    unfolding vd by (fact rc)
  have fc: "\<forall>s \<in> set ?C. pending (resume (reduce MPI_MIN (map contribution ?C)) s) = None"
    unfolding rc
  proof clarsimp
    fix e p assume "(e, p) \<in> set procs"
    from each [OF this] obtain msgs ier p1
      where "PMMG_check_inputData e p = Some (msgs, ier, p1)" by blast
    then show "pending (resume 0 (PMMG_parmmglib_centralized e p)) = None"
      by (simp add: centralized_at_check centralized_phase1_def)
  qed
  have fd: "\<forall>s \<in> set ?D. pending (resume (reduce MPI_MIN (map contribution ?D)) s) = None"
    unfolding rd
  proof clarsimp
    fix e p assume "(e, p) \<in> set procs"
    from each [OF this] obtain msgs ier p1
      where "PMMG_check_inputData e p = Some (msgs, ier, p1)" by blast
    then show "pending (resume 0 (PMMG_parmmglib_distributed e p)) = None"
      by (simp add: distributed_at_check distributed_phase1_def)
  qed
  from j(1) have jc: "j < length ?C" and jd: "j < length ?D" by simp_all
  from mpi_run_one_round [OF ne(1) pc fc jc, of n] j
  show "mpi_run (Suc n) ?C ! j
           = Returned PMMG_LOWFAILURE q ([Call check_inputData] @ msgs' @ [Allreduce MPI_MIN ier' 0])"
    unfolding rc by (simp add: centralized_at_check centralized_phase1_def)
  from mpi_run_one_round [OF ne(2) pd fd jd, of n] j
  show "mpi_run (Suc n) ?D ! j
           = Returned PMMG_LOWFAILURE q ([Call check_inputData] @ msgs' @ [Allreduce MPI_MIN ier' 0])"
    unfolding rd by (simp add: distributed_at_check distributed_phase1_def)
qed

lemmas driver_defs =
  PMMG_parmmglib_centralized_def PMMG_parmmglib_distributed_def
  centralized_phase1_def centralized_analysis_def centralized_distribute_def
  centralized_phase2_def centralized_phase3_def centralized_phase4_def
  distributed_phase1_def distributed_phase2_def distributed_phase3_def
  distributed_analysis.simps
  clean_and_return_def devote_memory_to_mesh_def boundary_reconstruction_def store_mesh_def
  preprocess_and_unscale_def PMMG_preprocessMesh_def preprocessMesh_body_def
  unscale_after_failure_def PMMG_check_inputData_def check_inputData_loop.simps
  check_inputData_grp_def PMMG_CLEAN_AND_RETURN_def clean_grp_loop.simps clean_grp_def
  clean_sol_loop.simps array_read_def collective_def mpi_run.simps
  PMMG_SUCCESS_def PMMG_LOWFAILURE_def PMMG_STRONGFAILURE_def

lemmas example_defs =
  ext_ok_def ext_merge_fails_def ext_boundary_fails_def ext_remesh_strong_def ext_remesh_low_def
  parmesh_of_rank_def parmesh_lagrangian_def parmesh_short_metric_def mesh2_def met0_def info0_def

text \<open>
  The claim C4 as it is written counts a metric whose point count differs from the mesh's
  among the errors. The code treats it as a warning and drops the metric: on a process
  whose metric has three points for a mesh of five, with collaborators that succeed, the
  centralized entry point goes through all its phases and returns \<open>PMMG_SUCCESS\<close>.
\<close>

theorem wrong_metric_number_counterexample:
  "sol_np (met0\<lparr>sol_np := 3\<rparr>) \<noteq> np mesh2
   \<and> map returned_code (mpi_run 4 [PMMG_parmmglib_centralized ext_ok parmesh_short_metric])
       = [Some PMMG_SUCCESS]
   \<and> map trace_of (mpi_run 4 [PMMG_parmmglib_centralized ext_ok parmesh_short_metric])
       = [[Call check_inputData, Message ''  ## WARNING: WRONG METRIC NUMBER. IGNORED'',
           Allreduce MPI_MIN 1 1, Call bcast_mesh, Call preprocessMesh,
           Allreduce MPI_MAX 0 0, Call distribute_mesh, Call parmmglib1,
           Allreduce MPI_MAX 0 0, Call merge_parmesh, Call parmesh_Free_Comm,
           Call hashTetra, Call bdryBuild]]"
  by (simp add: driver_defs example_defs eval_nat_numeral)

text \<open>
  C4, as the code has it. Let no process stop abnormally in the input check, and let some
  group of some process have the lagrangian mode or the level-set discretisation switched
  on, or \<open>optimLES\<close> with a metric of size 6, or \<open>optim\<close> or a positive \<open>hsiz\<close> with an
  input metric, or \<open>optim\<close> with a positive \<open>hsiz\<close>, or a metric size other than 1 and 6
  on a metric that is empty or has as many points as the mesh. Then the check of that
  process writes an error text and returns 0, and in every run of either entry point
  every process returns \<open>PMMG_LOWFAILURE\<close> right after the reduction: its trace holds the
  call of the check, the texts of its own check and the reduction, and no other call.
\<close>

theorem rejected_input_stops_every_process:
  fixes procs :: "(ext \<times> PMMG_ParMesh) list"
  assumes "\<forall>(e, p) \<in> set procs. PMMG_check_inputData e p \<noteq> None"
    and "i < length procs" and "procs ! i = (e, p)"
    and "k < length (listgrp p)" and "int k < ngrp p"
    and "mesh (listgrp p ! k) = Some m" and "met (listgrp p ! k) = Some s"
    and "lag (info m) > - 1 \<or> iso (info m) \<noteq> 0
         \<or> (optimLES (info m) \<noteq> 0 \<and> sol_size s = 6)
         \<or> (sol_np s \<noteq> 0 \<and> optim (info m) \<noteq> 0)
         \<or> (sol_np s \<noteq> 0 \<and> hsiz (info m) > 0)
         \<or> (optim (info m) \<noteq> 0 \<and> hsiz (info m) > 0)
         \<or> (sol_size s \<noteq> 1 \<and> sol_size s \<noteq> 6
             \<and> (sol_np s = 0 \<or> sol_np s = np (MMG5_warnOrientation e m)))"
  shows "(\<exists>msgs p1 txt. PMMG_check_inputData e p = Some (msgs, 0, p1) \<and> Message txt \<in> set msgs)
       \<and> (\<forall>j < length procs. \<exists>msgs' ier' q.
             PMMG_check_inputData (fst (procs ! j)) (snd (procs ! j)) = Some (msgs', ier', q)
           \<and> mpi_run (Suc n) (map (\<lambda>(e, p). PMMG_parmmglib_centralized e p) procs) ! j
               = Returned PMMG_LOWFAILURE q
                   ([Call check_inputData] @ msgs' @ [Allreduce MPI_MIN ier' 0])
           \<and> mpi_run (Suc n) (map (\<lambda>(e, p). PMMG_parmmglib_distributed e p) procs) ! j
               = Returned PMMG_LOWFAILURE q
                   ([Call check_inputData] @ msgs' @ [Allreduce MPI_MIN ier' 0])
           \<and> (\<forall>r. Call r \<in> set ([Call check_inputData] @ msgs' @ [Allreduce MPI_MIN ier' 0])
                  \<longrightarrow> r = check_inputData))"
proof -
  from assms(2,3) have "(e, p) \<in> set procs"
    by (auto simp add: in_set_conv_nth)
  with assms(1) have "PMMG_check_inputData e p \<noteq> None"
    by blast
  then obtain msgs ier p1 where c: "PMMG_check_inputData e p = Some (msgs, ier, p1)"
    by auto
  from check_inputData_rejects [OF c assms(4-8)] have z: "ier = 0" .
  from check_inputData_result(2,3) [OF c] z obtain mtext where "Message mtext \<in> set msgs"
    by (cases msgs) auto
  with c z have first: "\<exists>msgs p1 txt. PMMG_check_inputData e p = Some (msgs, 0, p1)
      \<and> Message txt \<in> set msgs" by blast
  have rest: "\<exists>msgs' ier' q.
             PMMG_check_inputData (fst (procs ! j)) (snd (procs ! j)) = Some (msgs', ier', q)
           \<and> mpi_run (Suc n) (map (\<lambda>(e, p). PMMG_parmmglib_centralized e p) procs) ! j
               = Returned PMMG_LOWFAILURE q
                   ([Call check_inputData] @ msgs' @ [Allreduce MPI_MIN ier' 0])
           \<and> mpi_run (Suc n) (map (\<lambda>(e, p). PMMG_parmmglib_distributed e p) procs) ! j
               = Returned PMMG_LOWFAILURE q
                   ([Call check_inputData] @ msgs' @ [Allreduce MPI_MIN ier' 0])
           \<and> (\<forall>r. Call r \<in> set ([Call check_inputData] @ msgs' @ [Allreduce MPI_MIN ier' 0])
                  \<longrightarrow> r = check_inputData)"
    if j: "j < length procs" for j
  proof -
    obtain e' p' where ep: "procs ! j = (e', p')" by (cases "procs ! j") auto
    with j have "(e', p') \<in> set procs"
      by (auto simp add: in_set_conv_nth)
    with assms(1) have "PMMG_check_inputData e' p' \<noteq> None"
      by blast
    then obtain msgs' ier' q where c': "PMMG_check_inputData e' p' = Some (msgs', ier', q)"
      by auto
    from check_inputData_result(2) [OF c']
    have only: "\<forall>r. Call r \<in> set ([Call check_inputData] @ msgs' @ [Allreduce MPI_MIN ier' 0])
                  \<longrightarrow> r = check_inputData"
      by auto
    note round = failed_check_round [OF assms(1) assms(2,3) c [unfolded z] j ep c', of n]
    from c' ep have cj: "PMMG_check_inputData (fst (procs ! j)) (snd (procs ! j))
        = Some (msgs', ier', q)" by simp
    from cj round only show ?thesis by (intro exI conjI)
  qed
  from first rest show ?thesis by (intro conjI allI impI)
qed

theorem rejected_input_stops_every_process_witness:
  "returned_code
     (mpi_run (Suc 0) (map (\<lambda>(e, p). PMMG_parmmglib_centralized e p)
                   [(ext_ok, parmesh_of_rank 1), (ext_ok, parmesh_lagrangian)]) ! 0)
     = Some PMMG_LOWFAILURE
   \<and> returned_code
     (mpi_run (Suc 0) (map (\<lambda>(e, p). PMMG_parmmglib_distributed e p)
                   [(ext_ok, parmesh_of_rank 1), (ext_ok, parmesh_lagrangian)]) ! 1)
     = Some PMMG_LOWFAILURE"
proof -
  let ?procs = "[(ext_ok, parmesh_of_rank 1), (ext_ok, parmesh_lagrangian)]"
  have 1: "\<forall>(e, p) \<in> set ?procs. PMMG_check_inputData e p \<noteq> None"
    by (simp add: driver_defs example_defs)
  have 2: "(1::nat) < length ?procs" and 3: "?procs ! 1 = (ext_ok, parmesh_lagrangian)"
    by simp_all
  have 4: "0 < length (listgrp parmesh_lagrangian)" "int 0 < ngrp parmesh_lagrangian"
    "mesh (listgrp parmesh_lagrangian ! 0) = Some (mesh2\<lparr>info := info0\<lparr>lag := 0\<rparr>\<rparr>)"
    "met (listgrp parmesh_lagrangian ! 0) = Some met0"
    by (simp_all add: parmesh_lagrangian_def)
  let ?m = "mesh2\<lparr>info := info0\<lparr>lag := 0\<rparr>\<rparr>"
  have 5: "lag (info ?m) > - 1 \<or> iso (info ?m) \<noteq> 0
         \<or> (optimLES (info ?m) \<noteq> 0 \<and> sol_size met0 = 6)
         \<or> (sol_np met0 \<noteq> 0 \<and> optim (info ?m) \<noteq> 0)
         \<or> (sol_np met0 \<noteq> 0 \<and> hsiz (info ?m) > 0)
         \<or> (optim (info ?m) \<noteq> 0 \<and> hsiz (info ?m) > 0)
         \<or> (sol_size met0 \<noteq> 1 \<and> sol_size met0 \<noteq> 6
             \<and> (sol_np met0 = 0 \<or> sol_np met0 = np (MMG5_warnOrientation ext_ok ?m)))"
    by simp
  note all = rejected_input_stops_every_process [where n = 0, OF 1 2 3 4 5,
      THEN conjunct2, rule_format]
  have "(0::nat) < length ?procs" by simp
  from all [OF this] all [OF 2] show ?thesis
    by (elim exE conjE) (simp only: returned_code.simps)
qed

section \<open>The reduction after the remeshing\<close>

















text \<open>
  The same on a whole run of the centralized entry point, from its first statement: the
  remeshing fails strongly on the second of two processes.
\<close>

lemma fail_together_example:
  "map returned_code
     (mpi_run 4 [PMMG_parmmglib_centralized ext_ok (parmesh_of_rank 0),
                 PMMG_parmmglib_centralized ext_remesh_strong (parmesh_of_rank 1)])
     = [Some PMMG_STRONGFAILURE, Some PMMG_STRONGFAILURE]"
  by (simp add: driver_defs example_defs eval_nat_numeral)

section \<open>Which outcomes are reduced\<close>








section \<open>A failed boundary reconstruction\<close>

lemma boundary_reconstruction_fails:
  assumes "fst (MMG3D_hashTetra e m) = 0
           \<or> fst (MMG3D_bdryBuild e (snd (MMG3D_hashTetra e m))) = - 1"
  shows "\<exists>m' calls. boundary_reconstruction e m = (True, m', calls)
           \<and> (calls = [Call hashTetra] \<or> calls = [Call hashTetra, Call bdryBuild])"
  using assms by (auto simp add: boundary_reconstruction_def split: prod.splits)

lemma cleanup_keeps_first_mesh:
  assumes "PMMG_CLEAN_AND_RETURN p val = Some (v, q)"
    and "listgrp p \<noteq> []" and "mesh (listgrp p ! 0) = Some m"
  shows "\<exists>mm. mesh (listgrp q ! 0) = Some mm
           \<and> mm\<lparr>npi := npi m, nti := nti m, nai := nai m, nei := nei m\<rparr> = m"
proof -
  from assms(1) have loop: "clean_grp_loop 0 p = Some q"
    by (auto simp add: PMMG_CLEAN_AND_RETURN_def)
  from assms(2) have len: "0 < length (listgrp p)" by simp
  from clean_grp_loop_Some [OF loop] len
  have grp: "if 0 \<le> int 0 \<and> int 0 < ngrp p then clean_grp (listgrp p ! 0) = Some (listgrp q ! 0)
        else listgrp q ! 0 = listgrp p ! 0"
    by blast
  show ?thesis
  proof (cases "0 < ngrp p")
    case True
    with grp have "clean_grp (listgrp p ! 0) = Some (listgrp q ! 0)" by simp
    from clean_grp_Some(1) [OF this] assms(3)
    have "mesh (listgrp q ! 0) = Some (m\<lparr>npi := np m, nti := nt m, nai := na m, nei := ne m\<rparr>)"
      by simp
    then show ?thesis by simp
  next
    case False
    with grp assms(3) show ?thesis by simp
  qed
qed

lemma store_mesh_first:
  "array_read (listgrp p) 0 = Some g \<Longrightarrow>
   listgrp (store_mesh p g m) \<noteq> [] \<and> mesh (listgrp (store_mesh p g m) ! 0) = Some m"
  by (auto simp add: store_mesh_def array_read_def split: if_splits)

lemma devote_memory_first:
  "devote_memory_to_mesh e p = Some (p2, g, m) \<Longrightarrow> array_read (listgrp p2) 0 = Some g"
  by (auto simp add: devote_memory_to_mesh_def Let_def split: option.splits)

text \<open>
  C5. Let the reduced outcome of the remeshing not be a strong failure, let the merge
  succeed and leave a mesh in the first group, and let the boundary reconstruction fail:
  \<^verbatim>\<open>MMG3D_hashTetra\<close> returns 0, or \<^verbatim>\<open>MMG3D_bdryBuild\<close> returns \<open>- 1\<close>. Then the process that
  rebuilds the boundary (the root in the centralized entry point, every process in the
  distributed one) returns \<open>PMMG_LOWFAILURE\<close>, which is not \<open>PMMG_STRONGFAILURE\<close>, and the
  first group of the parmesh it hands back still holds a mesh: the one that the failed
  routine left, up to the initial counters that the cleanup macro sets.
\<close>

theorem boundary_failure_is_low_failure:
  assumes "ierlib \<noteq> PMMG_STRONGFAILURE"
    and "devote_memory_to_mesh e p1 = Some (p2, g, m)"
    and "fst (MMG3D_hashTetra e m) = 0
         \<or> fst (MMG3D_bdryBuild e (snd (MMG3D_hashTetra e m))) = - 1"
  shows "\<exists>m' calls. boundary_reconstruction e m = (True, m', calls)
       \<and> (PMMG_merge_parmesh e p = (iresult, p1) \<and> iresult \<noteq> 0 \<and> myrank p1 = 0
            \<and> allocated (store_mesh p2 g m')
          \<longrightarrow> (\<exists>q mm.
                 centralized_phase3 e ierlib p tr
                   = Return PMMG_LOWFAILURE q
                       (tr @ [Call merge_parmesh, Call parmesh_Free_Comm] @ calls
                           @ [Message ''  -- IMPOSSIBLE TO BUILD THE BOUNDARY MESH''])
               \<and> mesh (listgrp q ! 0) = Some mm
               \<and> mm\<lparr>npi := npi m', nti := nti m', nai := nai m', nei := nei m'\<rparr> = m'))
       \<and> distributed_phase3 e ierlib p1 tr
           = Return PMMG_LOWFAILURE (store_mesh p2 g m')
               (tr @ [Call parmesh_Free_Comm] @ calls
                   @ [Message ''  -- IMPOSSIBLE TO BUILD THE BOUNDARY MESH''])
       \<and> mesh (listgrp (store_mesh p2 g m') ! 0) = Some m'
       \<and> PMMG_LOWFAILURE \<noteq> PMMG_STRONGFAILURE"
proof -
  from boundary_reconstruction_fails [OF assms(3)]
  obtain m' calls where b: "boundary_reconstruction e m = (True, m', calls)" by blast
  note first = store_mesh_first [OF devote_memory_first [OF assms(2)], of m']
  have cen: "\<exists>q mm.
                 centralized_phase3 e ierlib p tr
                   = Return PMMG_LOWFAILURE q
                       (tr @ [Call merge_parmesh, Call parmesh_Free_Comm] @ calls
                           @ [Message ''  -- IMPOSSIBLE TO BUILD THE BOUNDARY MESH''])
               \<and> mesh (listgrp q ! 0) = Some mm
               \<and> mm\<lparr>npi := npi m', nti := nti m', nai := nai m', nei := nei m'\<rparr> = m'"
    if h: "PMMG_merge_parmesh e p = (iresult, p1) \<and> iresult \<noteq> 0 \<and> myrank p1 = 0
            \<and> allocated (store_mesh p2 g m')"
  proof -
    from h cleanup_total [of "store_mesh p2 g m'" PMMG_LOWFAILURE]
    obtain q where q: "PMMG_CLEAN_AND_RETURN (store_mesh p2 g m') PMMG_LOWFAILURE
        = Some (PMMG_LOWFAILURE, q)" by blast
    from cleanup_keeps_first_mesh [OF q] first
    obtain mm where mm: "mesh (listgrp q ! 0) = Some mm"
      "mm\<lparr>npi := npi m', nti := nti m', nai := nai m', nei := nei m'\<rparr> = m'"
      by blast
    from h assms(1,2) b q
    have "centralized_phase3 e ierlib p tr
                   = Return PMMG_LOWFAILURE q
                       (tr @ [Call merge_parmesh, Call parmesh_Free_Comm] @ calls
                           @ [Message ''  -- IMPOSSIBLE TO BUILD THE BOUNDARY MESH''])"
      by (simp add: centralized_phase3_def centralized_phase4_def clean_and_return_def)
    with mm show ?thesis by blast
  qed
  from assms(1,2) b
  have dis: "distributed_phase3 e ierlib p1 tr
           = Return PMMG_LOWFAILURE (store_mesh p2 g m')
               (tr @ [Call parmesh_Free_Comm] @ calls
                   @ [Message ''  -- IMPOSSIBLE TO BUILD THE BOUNDARY MESH''])"
    by (simp add: distributed_phase3_def)
  have ne: "PMMG_LOWFAILURE \<noteq> PMMG_STRONGFAILURE"
    by (simp add: PMMG_LOWFAILURE_def PMMG_STRONGFAILURE_def)
  from b cen dis first ne show ?thesis by blast
qed

theorem boundary_failure_is_low_failure_witness:
  "(\<exists>q mm. centralized_phase3 ext_boundary_fails PMMG_SUCCESS (parmesh_of_rank 0) []
             = Return PMMG_LOWFAILURE q
                 [Call merge_parmesh, Call parmesh_Free_Comm, Call hashTetra,
                  Message ''  -- IMPOSSIBLE TO BUILD THE BOUNDARY MESH'']
           \<and> mesh (listgrp q ! 0) = Some mm \<and> ne mm = 2)
   \<and> (\<exists>q mm. distributed_phase3 ext_boundary_fails PMMG_SUCCESS (parmesh_of_rank 0) []
             = Return PMMG_LOWFAILURE q
                 [Call parmesh_Free_Comm, Call hashTetra,
                  Message ''  -- IMPOSSIBLE TO BUILD THE BOUNDARY MESH'']
           \<and> mesh (listgrp q ! 0) = Some mm \<and> ne mm = 2)"
proof -
  let ?e = ext_boundary_fails
  let ?p = "parmesh_of_rank 0"
  let ?g = "\<lparr>mesh = Some mesh2, met = Some met0, sol = []\<rparr>"
  let ?m = "mesh2\<lparr>memMax := 2000\<rparr>"
  let ?p2 = "?p\<lparr>memMax := 0\<rparr>"
  have h1: "PMMG_SUCCESS \<noteq> PMMG_STRONGFAILURE"
    by (simp add: PMMG_SUCCESS_def PMMG_STRONGFAILURE_def)
  have h2: "devote_memory_to_mesh ?e ?p = Some (?p2, ?g, ?m)"
    by (simp add: devote_memory_to_mesh_def array_read_def ext_boundary_fails_def ext_ok_def
        parmesh_of_rank_def mesh2_def)
  have h3: "fst (MMG3D_hashTetra ?e ?m) = 0
         \<or> fst (MMG3D_bdryBuild ?e (snd (MMG3D_hashTetra ?e ?m))) = - 1"
    by (simp add: ext_boundary_fails_def)
  have b: "boundary_reconstruction ?e ?m = (True, ?m, [Call hashTetra])"
    by (simp add: boundary_reconstruction_def ext_boundary_fails_def)
  have h4: "PMMG_merge_parmesh ?e ?p = (1, ?p) \<and> (1::int) \<noteq> 0 \<and> myrank ?p = 0
            \<and> allocated (store_mesh ?p2 ?g ?m)"
    by (simp add: ext_boundary_fails_def ext_ok_def parmesh_of_rank_def store_mesh_def
        allocated_def mesh2_def)
  from boundary_failure_is_low_failure [OF h1 h2 h3, of ?p 1 "[]"] b h4
  have "(\<exists>q mm. centralized_phase3 ?e PMMG_SUCCESS ?p []
             = Return PMMG_LOWFAILURE q
                 ([] @ [Call merge_parmesh, Call parmesh_Free_Comm] @ [Call hashTetra]
                     @ [Message ''  -- IMPOSSIBLE TO BUILD THE BOUNDARY MESH''])
           \<and> mesh (listgrp q ! 0) = Some mm
           \<and> mm\<lparr>npi := npi ?m, nti := nti ?m, nai := nai ?m, nei := nei ?m\<rparr> = ?m)
       \<and> distributed_phase3 ?e PMMG_SUCCESS ?p []
           = Return PMMG_LOWFAILURE (store_mesh ?p2 ?g ?m)
               ([] @ [Call parmesh_Free_Comm] @ [Call hashTetra]
                   @ [Message ''  -- IMPOSSIBLE TO BUILD THE BOUNDARY MESH''])
       \<and> mesh (listgrp (store_mesh ?p2 ?g ?m) ! 0) = Some ?m"
    by auto
  then obtain q mm where
    c: "centralized_phase3 ?e PMMG_SUCCESS ?p []
             = Return PMMG_LOWFAILURE q
                 [Call merge_parmesh, Call parmesh_Free_Comm, Call hashTetra,
                  Message ''  -- IMPOSSIBLE TO BUILD THE BOUNDARY MESH'']"
    and mq: "mesh (listgrp q ! 0) = Some mm"
    and mm: "mm\<lparr>npi := npi ?m, nti := nti ?m, nai := nai ?m, nei := nei ?m\<rparr> = ?m"
    and d: "distributed_phase3 ?e PMMG_SUCCESS ?p []
           = Return PMMG_LOWFAILURE (store_mesh ?p2 ?g ?m)
               [Call parmesh_Free_Comm, Call hashTetra,
                Message ''  -- IMPOSSIBLE TO BUILD THE BOUNDARY MESH'']"
    and md: "mesh (listgrp (store_mesh ?p2 ?g ?m) ! 0) = Some ?m"
    by auto
  from mm have "ne (mm\<lparr>npi := npi ?m, nti := nti ?m, nai := nai ?m, nei := nei ?m\<rparr>) = ne ?m"
    by (rule arg_cong)
  then have "ne mm = 2" by (simp add: mesh2_def)
  with c mq have 1: "\<exists>q mm. centralized_phase3 ?e PMMG_SUCCESS ?p []
             = Return PMMG_LOWFAILURE q
                 [Call merge_parmesh, Call parmesh_Free_Comm, Call hashTetra,
                  Message ''  -- IMPOSSIBLE TO BUILD THE BOUNDARY MESH'']
           \<and> mesh (listgrp q ! 0) = Some mm \<and> ne mm = 2" by blast
  have "ne ?m = 2" by (simp add: mesh2_def)
  with d md have 2: "\<exists>q mm. distributed_phase3 ?e PMMG_SUCCESS ?p []
             = Return PMMG_LOWFAILURE q
                 [Call parmesh_Free_Comm, Call hashTetra,
                  Message ''  -- IMPOSSIBLE TO BUILD THE BOUNDARY MESH'']
           \<and> mesh (listgrp q ! 0) = Some mm \<and> ne mm = 2" by blast
  from 1 2 show ?thesis by (rule conjI)
qed

section \<open>The order of the phases\<close>

inductive_cases ends_ReturnE: "ends (Return c p tr) out"
inductive_cases ends_AbortE: "ends (Abort tr) out"
inductive_cases ends_AllreduceE: "ends (MPI_Allreduce opr v tr k) out"

lemma skeleton_simps [simp]:
  "skeleton [] = []"
  "skeleton (ev # tr) = (if structural ev then ev # skeleton tr else skeleton tr)"
  "skeleton (tr @ tr') = skeleton tr @ skeleton tr'"
  by (simp_all add: skeleton_def)

lemma skeleton_messages:
  "\<forall>ev \<in> set msgs. \<exists>txt. ev = Message txt \<Longrightarrow> skeleton msgs = []"
  by (induction msgs) auto


lemma preprocess_and_unscale_calls:
  "preprocess_and_unscale e k p = Some (ier, p3, calls) \<Longrightarrow>
     calls = [] \<or> calls = [Call unscaleMesh]"
  by (auto simp add: preprocess_and_unscale_def unscale_after_failure_def
      split: option.splits if_splits prod.splits)

lemma clean_and_return_ends:
  "ends (clean_and_return p tr val) out \<Longrightarrow> trace_of out = tr"
  by (auto simp add: clean_and_return_def split: option.splits
      elim: ends_ReturnE ends_AbortE)

lemma boundary_reconstruction_calls:
  "boundary_reconstruction e m = (failed, m', calls) \<Longrightarrow>
     calls = [Call hashTetra] \<or> calls = [Call hashTetra, Call bdryBuild]"
  by (auto simp add: boundary_reconstruction_def split: prod.splits if_splits)

lemma centralized_phase4_ends:
  assumes "ends (centralized_phase4 e r p tr) out"
  shows "\<exists>sfx. trace_of out = tr @ sfx
           \<and> prefix (skeleton sfx) [Call parmesh_Free_Comm, Call hashTetra]"
proof (cases "myrank p = 0")
  case False
  with assms have "trace_of out = tr"
    by (auto simp add: centralized_phase4_def dest: clean_and_return_ends)
  then show ?thesis by simp
next
  case True
  show ?thesis
  proof (cases "devote_memory_to_mesh e p")
    case None
    with True assms have "trace_of out = tr @ [Call parmesh_Free_Comm]"
      by (auto simp add: centralized_phase4_def elim: ends_AbortE)
    then show ?thesis by simp
  next
    case (Some x)
    obtain p2 g m where x: "x = (p2, g, m)" by (cases x) auto
    obtain failed m' calls where b: "boundary_reconstruction e m = (failed, m', calls)"
      by (cases "boundary_reconstruction e m") auto
    from boundary_reconstruction_calls [OF b]
    have sk: "skeleton calls = [Call hashTetra]" by auto
    from True Some x b assms
    have "trace_of out = tr @ [Call parmesh_Free_Comm] @ calls
            @ [Message ''  -- IMPOSSIBLE TO BUILD THE BOUNDARY MESH'']
        \<or> trace_of out = tr @ [Call parmesh_Free_Comm] @ calls"
      by (auto simp add: centralized_phase4_def split: if_splits dest: clean_and_return_ends)
    then show ?thesis
    proof
      assume "trace_of out = tr @ [Call parmesh_Free_Comm] @ calls
            @ [Message ''  -- IMPOSSIBLE TO BUILD THE BOUNDARY MESH'']"
      with sk show ?thesis by simp
    next
      assume "trace_of out = tr @ [Call parmesh_Free_Comm] @ calls"
      with sk show ?thesis by simp
    qed
  qed
qed

lemma centralized_phase3_ends:
  assumes "ends (centralized_phase3 e r p tr) out"
  shows "\<exists>sfx. trace_of out = tr @ sfx
           \<and> prefix (skeleton sfx) [Call merge_parmesh, Call parmesh_Free_Comm, Call hashTetra]
           \<and> (r = PMMG_STRONGFAILURE \<longrightarrow> sfx = [])"
proof (cases "r = PMMG_STRONGFAILURE")
  case True
  with assms have "trace_of out = tr"
    by (auto simp add: centralized_phase3_def elim: ends_ReturnE)
  with True show ?thesis by simp
next
  case False
  obtain iresult p1 where mg: "PMMG_merge_parmesh e p = (iresult, p1)"
    by (cases "PMMG_merge_parmesh e p") auto
  show ?thesis
  proof (cases "iresult = 0")
    case True
    with False mg assms have "trace_of out = tr @ [Call merge_parmesh]"
      by (auto simp add: centralized_phase3_def dest: clean_and_return_ends)
    with False show ?thesis by simp
  next
    case nz: False
    with False mg assms have "ends (centralized_phase4 e r p1 (tr @ [Call merge_parmesh])) out"
      by (simp add: centralized_phase3_def)
    from centralized_phase4_ends [OF this] obtain sfx
      where "trace_of out = (tr @ [Call merge_parmesh]) @ sfx"
        and "prefix (skeleton sfx) [Call parmesh_Free_Comm, Call hashTetra]" by blast
    with False show ?thesis
      by (intro exI [of _ "Call merge_parmesh # sfx"]) simp
  qed
qed

lemma centralized_phase2_ends:
  assumes "ends (centralized_phase2 e p tr) out"
  shows "\<exists>sfx v3 r3. trace_of out = tr @ sfx
           \<and> prefix (skeleton sfx)
                [Call parmmglib1, Allreduce MPI_MAX v3 r3,
                 Call merge_parmesh, Call parmesh_Free_Comm, Call hashTetra]
           \<and> (Call merge_parmesh \<in> set sfx \<longrightarrow> r3 \<noteq> PMMG_STRONGFAILURE)"
proof -
  obtain ier p1 where rm: "PMMG_parmmglib1 e p = (ier, p1)"
    by (cases "PMMG_parmmglib1 e p") auto
  from assms rm
  have "trace_of out = tr @ [Call parmmglib1]
      \<or> (\<exists>r. ends (centralized_phase3 e r p1
                      (tr @ [Call parmmglib1, Allreduce MPI_MAX ier r])) out)"
    by (auto simp add: centralized_phase2_def elim!: ends_AllreduceE)
  then show ?thesis
  proof
    assume "trace_of out = tr @ [Call parmmglib1]"
    then show ?thesis by (intro exI [of _ "[Call parmmglib1]"]) simp
  next
    assume "\<exists>r. ends (centralized_phase3 e r p1
                      (tr @ [Call parmmglib1, Allreduce MPI_MAX ier r])) out"
    then obtain r where "ends (centralized_phase3 e r p1
                      (tr @ [Call parmmglib1, Allreduce MPI_MAX ier r])) out" ..
    from centralized_phase3_ends [OF this] obtain sfx
      where 1: "trace_of out = (tr @ [Call parmmglib1, Allreduce MPI_MAX ier r]) @ sfx"
        and 2: "prefix (skeleton sfx) [Call merge_parmesh, Call parmesh_Free_Comm, Call hashTetra]"
        and 3: "r = PMMG_STRONGFAILURE \<longrightarrow> sfx = []" by blast
    show ?thesis
    proof (intro exI conjI)
      from 1 show "trace_of out = tr @ ([Call parmmglib1, Allreduce MPI_MAX ier r] @ sfx)"
        by simp
      from 2 show "prefix (skeleton ([Call parmmglib1, Allreduce MPI_MAX ier r] @ sfx))
                [Call parmmglib1, Allreduce MPI_MAX ier r,
                 Call merge_parmesh, Call parmesh_Free_Comm, Call hashTetra]"
        by simp
      from 3 show "Call merge_parmesh \<in> set ([Call parmmglib1, Allreduce MPI_MAX ier r] @ sfx)
           \<longrightarrow> r \<noteq> PMMG_STRONGFAILURE"
        by auto
    qed
  qed
qed

lemma centralized_distribute_ends:
  assumes "ends (centralized_distribute e r p tr) out"
  shows "\<exists>sfx v3 r3. trace_of out = tr @ sfx
           \<and> prefix (skeleton sfx)
                [Call distribute_mesh, Call parmmglib1, Allreduce MPI_MAX v3 r3,
                 Call merge_parmesh, Call parmesh_Free_Comm, Call hashTetra]
           \<and> (Call merge_parmesh \<in> set sfx \<longrightarrow> r3 \<noteq> PMMG_STRONGFAILURE)
           \<and> (r \<noteq> PMMG_SUCCESS \<longrightarrow> sfx = [])"
proof (cases "r \<noteq> PMMG_SUCCESS")
  case True
  with assms have "trace_of out = tr"
    by (auto simp add: centralized_distribute_def elim: ends_ReturnE)
  then show ?thesis by simp
next
  case False
  obtain d p1 where ds: "PMMG_distribute_mesh e p = (d, p1)"
    by (cases "PMMG_distribute_mesh e p") auto
  show ?thesis
  proof (cases "d = 0")
    case True
    with False ds assms have "trace_of out = tr @ [Call distribute_mesh]"
      by (auto simp add: centralized_distribute_def dest: clean_and_return_ends)
    with False show ?thesis by (intro exI [of _ "[Call distribute_mesh]"]) simp
  next
    case nz: False
    with False ds assms have "ends (centralized_phase2 e p1 (tr @ [Call distribute_mesh])) out"
      by (simp add: centralized_distribute_def)
    from centralized_phase2_ends [OF this] obtain sfx v3 r3
      where 1: "trace_of out = (tr @ [Call distribute_mesh]) @ sfx"
        and 2: "prefix (skeleton sfx)
                [Call parmmglib1, Allreduce MPI_MAX v3 r3,
                 Call merge_parmesh, Call parmesh_Free_Comm, Call hashTetra]"
        and 3: "Call merge_parmesh \<in> set sfx \<longrightarrow> r3 \<noteq> PMMG_STRONGFAILURE" by blast
    show ?thesis
    proof (intro exI conjI)
      from 1 show "trace_of out = tr @ (Call distribute_mesh # sfx)" by simp
      from 2 show "prefix (skeleton (Call distribute_mesh # sfx))
                [Call distribute_mesh, Call parmmglib1, Allreduce MPI_MAX v3 r3,
                 Call merge_parmesh, Call parmesh_Free_Comm, Call hashTetra]"
        by simp
      from 3 show "Call merge_parmesh \<in> set (Call distribute_mesh # sfx)
           \<longrightarrow> r3 \<noteq> PMMG_STRONGFAILURE" by simp
      from False show "r \<noteq> PMMG_SUCCESS \<longrightarrow> Call distribute_mesh # sfx = []" by simp
    qed
  qed
qed

lemma centralized_analysis_ends:
  assumes "ends (centralized_analysis e p tr) out"
  shows "\<exists>sfx v2 r2 v3 r3. trace_of out = tr @ sfx
           \<and> prefix (skeleton sfx)
                [Call preprocessMesh, Allreduce MPI_MAX v2 r2,
                 Call distribute_mesh, Call parmmglib1, Allreduce MPI_MAX v3 r3,
                 Call merge_parmesh, Call parmesh_Free_Comm, Call hashTetra]
           \<and> (Call distribute_mesh \<in> set sfx \<longrightarrow> r2 = PMMG_SUCCESS)
           \<and> (Call merge_parmesh \<in> set sfx \<longrightarrow> r3 \<noteq> PMMG_STRONGFAILURE)"
proof (cases "preprocess_and_unscale e 0 p")
  case None
  with assms have "trace_of out = tr @ [Call preprocessMesh]"
    by (auto simp add: centralized_analysis_def elim: ends_AbortE)
  then show ?thesis by (intro exI [of _ "[Call preprocessMesh]"]) simp
next
  case (Some x)
  obtain ier p3 calls where x: "x = (ier, p3, calls)" by (cases x) auto
  from preprocess_and_unscale_calls [OF Some [unfolded x]]
  have sk: "skeleton calls = []" and nc: "\<And>r. r \<noteq> unscaleMesh \<Longrightarrow> Call r \<notin> set calls"
    by auto
  from assms Some x
  have "trace_of out = tr @ [Call preprocessMesh] @ calls
      \<or> (\<exists>r. ends (centralized_distribute e r p3
                      (tr @ [Call preprocessMesh] @ calls @ [Allreduce MPI_MAX ier r])) out)"
    by (auto simp add: centralized_analysis_def elim!: ends_AllreduceE)
  then show ?thesis
  proof
    assume "trace_of out = tr @ [Call preprocessMesh] @ calls"
    with sk nc show ?thesis
      by (intro exI [of _ "[Call preprocessMesh] @ calls"]) auto
  next
    assume "\<exists>r. ends (centralized_distribute e r p3
                      (tr @ [Call preprocessMesh] @ calls @ [Allreduce MPI_MAX ier r])) out"
    then obtain r where "ends (centralized_distribute e r p3
                      (tr @ [Call preprocessMesh] @ calls @ [Allreduce MPI_MAX ier r])) out" ..
    from centralized_distribute_ends [OF this] obtain sfx v3 r3
      where 1: "trace_of out = (tr @ [Call preprocessMesh] @ calls @ [Allreduce MPI_MAX ier r]) @ sfx"
        and 2: "prefix (skeleton sfx)
                [Call distribute_mesh, Call parmmglib1, Allreduce MPI_MAX v3 r3,
                 Call merge_parmesh, Call parmesh_Free_Comm, Call hashTetra]"
        and 3: "Call merge_parmesh \<in> set sfx \<longrightarrow> r3 \<noteq> PMMG_STRONGFAILURE"
        and 4: "r \<noteq> PMMG_SUCCESS \<longrightarrow> sfx = []" by blast
    let ?sfx = "[Call preprocessMesh] @ calls @ [Allreduce MPI_MAX ier r] @ sfx"
    show ?thesis
    proof (intro exI conjI)
      from 1 show "trace_of out = tr @ ?sfx" by simp
      from 2 sk show "prefix (skeleton ?sfx)
                [Call preprocessMesh, Allreduce MPI_MAX ier r,
                 Call distribute_mesh, Call parmmglib1, Allreduce MPI_MAX v3 r3,
                 Call merge_parmesh, Call parmesh_Free_Comm, Call hashTetra]"
        by simp
      from 4 nc show "Call distribute_mesh \<in> set ?sfx \<longrightarrow> r = PMMG_SUCCESS" by auto
      from 3 nc show "Call merge_parmesh \<in> set ?sfx \<longrightarrow> r3 \<noteq> PMMG_STRONGFAILURE" by auto
    qed
  qed
qed

lemma centralized_phase1_ends:
  assumes "ends (centralized_phase1 e r p tr) out"
  shows "\<exists>sfx v2 r2 v3 r3. trace_of out = tr @ sfx
           \<and> prefix (skeleton sfx)
                [Call bcast_mesh, Call preprocessMesh, Allreduce MPI_MAX v2 r2,
                 Call distribute_mesh, Call parmmglib1, Allreduce MPI_MAX v3 r3,
                 Call merge_parmesh, Call parmesh_Free_Comm, Call hashTetra]
           \<and> (Call distribute_mesh \<in> set sfx \<longrightarrow> r2 = PMMG_SUCCESS)
           \<and> (Call merge_parmesh \<in> set sfx \<longrightarrow> r3 \<noteq> PMMG_STRONGFAILURE)
           \<and> (r = 0 \<longrightarrow> sfx = [])"
proof (cases "r = 0")
  case True
  with assms have "trace_of out = tr"
    by (auto simp add: centralized_phase1_def elim: ends_ReturnE)
  then show ?thesis by simp
next
  case False
  obtain b p1 where bc: "PMMG_bcast_mesh e p = (b, p1)"
    by (cases "PMMG_bcast_mesh e p") auto
  show ?thesis
  proof (cases "b \<noteq> 1")
    case True
    with False bc assms have "trace_of out = tr @ [Call bcast_mesh]"
      by (auto simp add: centralized_phase1_def elim: ends_ReturnE)
    with False show ?thesis by (intro exI [of _ "[Call bcast_mesh]"]) simp
  next
    case one: False
    with False bc assms have "ends (centralized_analysis e p1 (tr @ [Call bcast_mesh])) out"
      by (simp add: centralized_phase1_def)
    from centralized_analysis_ends [OF this] obtain sfx v2 r2 v3 r3
      where 1: "trace_of out = (tr @ [Call bcast_mesh]) @ sfx"
        and 2: "prefix (skeleton sfx)
                [Call preprocessMesh, Allreduce MPI_MAX v2 r2,
                 Call distribute_mesh, Call parmmglib1, Allreduce MPI_MAX v3 r3,
                 Call merge_parmesh, Call parmesh_Free_Comm, Call hashTetra]"
        and 3: "Call distribute_mesh \<in> set sfx \<longrightarrow> r2 = PMMG_SUCCESS"
        and 4: "Call merge_parmesh \<in> set sfx \<longrightarrow> r3 \<noteq> PMMG_STRONGFAILURE" by blast
    show ?thesis
    proof (intro exI conjI)
      from 1 show "trace_of out = tr @ (Call bcast_mesh # sfx)" by simp
      from 2 show "prefix (skeleton (Call bcast_mesh # sfx))
                [Call bcast_mesh, Call preprocessMesh, Allreduce MPI_MAX v2 r2,
                 Call distribute_mesh, Call parmmglib1, Allreduce MPI_MAX v3 r3,
                 Call merge_parmesh, Call parmesh_Free_Comm, Call hashTetra]"
        by simp
      from 3 show "Call distribute_mesh \<in> set (Call bcast_mesh # sfx) \<longrightarrow> r2 = PMMG_SUCCESS"
        by simp
      from 4 show "Call merge_parmesh \<in> set (Call bcast_mesh # sfx)
          \<longrightarrow> r3 \<noteq> PMMG_STRONGFAILURE" by simp
      from False show "r = 0 \<longrightarrow> Call bcast_mesh # sfx = []" by simp
    qed
  qed
qed

lemma centralized_ends:
  assumes "ends (PMMG_parmmglib_centralized e p) out"
  shows "\<exists>v1 r1 v2 r2 v3 r3.
           prefix (skeleton (trace_of out))
                [Call check_inputData, Allreduce MPI_MIN v1 r1,
                 Call bcast_mesh, Call preprocessMesh, Allreduce MPI_MAX v2 r2,
                 Call distribute_mesh, Call parmmglib1, Allreduce MPI_MAX v3 r3,
                 Call merge_parmesh, Call parmesh_Free_Comm, Call hashTetra]
           \<and> (Call bcast_mesh \<in> set (trace_of out) \<longrightarrow> r1 \<noteq> 0)
           \<and> (Call distribute_mesh \<in> set (trace_of out) \<longrightarrow> r2 = PMMG_SUCCESS)
           \<and> (Call merge_parmesh \<in> set (trace_of out) \<longrightarrow> r3 \<noteq> PMMG_STRONGFAILURE)"
proof (cases "PMMG_check_inputData e p")
  case None
  with assms have "trace_of out = [Call check_inputData]"
    by (auto simp add: PMMG_parmmglib_centralized_def elim: ends_AbortE)
  then show ?thesis by simp
next
  case (Some x)
  obtain msgs ier p1 where x: "x = (msgs, ier, p1)" by (cases x) auto
  from check_inputData_result(2) [OF Some [unfolded x]]
  have ms: "\<forall>ev \<in> set msgs. \<exists>txt. ev = Message txt" .
  then have sk: "skeleton msgs = []" by (rule skeleton_messages)
  from ms have nc: "\<And>r. Call r \<notin> set msgs" by auto
  from assms Some x
  have "trace_of out = [Call check_inputData] @ msgs
      \<or> (\<exists>r. ends (centralized_phase1 e r p1
                      ([Call check_inputData] @ msgs @ [Allreduce MPI_MIN ier r])) out)"
    by (auto simp add: PMMG_parmmglib_centralized_def elim!: ends_AllreduceE)
  then show ?thesis
  proof
    assume "trace_of out = [Call check_inputData] @ msgs"
    with sk nc show ?thesis by simp
  next
    assume "\<exists>r. ends (centralized_phase1 e r p1
                      ([Call check_inputData] @ msgs @ [Allreduce MPI_MIN ier r])) out"
    then obtain r where "ends (centralized_phase1 e r p1
                      ([Call check_inputData] @ msgs @ [Allreduce MPI_MIN ier r])) out" ..
    from centralized_phase1_ends [OF this] obtain sfx v2 r2 v3 r3
      where 1: "trace_of out = ([Call check_inputData] @ msgs @ [Allreduce MPI_MIN ier r]) @ sfx"
        and 2: "prefix (skeleton sfx)
                [Call bcast_mesh, Call preprocessMesh, Allreduce MPI_MAX v2 r2,
                 Call distribute_mesh, Call parmmglib1, Allreduce MPI_MAX v3 r3,
                 Call merge_parmesh, Call parmesh_Free_Comm, Call hashTetra]"
        and 3: "Call distribute_mesh \<in> set sfx \<longrightarrow> r2 = PMMG_SUCCESS"
        and 4: "Call merge_parmesh \<in> set sfx \<longrightarrow> r3 \<noteq> PMMG_STRONGFAILURE"
        and 5: "r = 0 \<longrightarrow> sfx = []" by blast
    show ?thesis
    proof (intro exI conjI)
      from 1 2 sk show "prefix (skeleton (trace_of out))
                [Call check_inputData, Allreduce MPI_MIN ier r,
                 Call bcast_mesh, Call preprocessMesh, Allreduce MPI_MAX v2 r2,
                 Call distribute_mesh, Call parmmglib1, Allreduce MPI_MAX v3 r3,
                 Call merge_parmesh, Call parmesh_Free_Comm, Call hashTetra]"
        by simp
      from 1 5 nc show "Call bcast_mesh \<in> set (trace_of out) \<longrightarrow> r \<noteq> 0" by auto
      from 1 3 nc show "Call distribute_mesh \<in> set (trace_of out) \<longrightarrow> r2 = PMMG_SUCCESS"
        by auto
      from 1 4 nc show "Call merge_parmesh \<in> set (trace_of out)
          \<longrightarrow> r3 \<noteq> PMMG_STRONGFAILURE" by auto
    qed
  qed
qed

text \<open>
  C6, as the code has it. In every run of the centralized entry point, whatever the
  collaborators return, the calls and reductions of each process come in one fixed order:
  the trace of a process, without the texts and the two optional calls, is a beginning of
  the sequence below. A process calls the broadcast only after a reduced input check
  other than 0, the distribution only after a reduced preprocessing that is
  \<open>PMMG_SUCCESS\<close>, the merge only after a reduced remeshing that is not
  \<open>PMMG_STRONGFAILURE\<close>. No reduction stands between the distribution and the remeshing, nor
  between the merge and the boundary reconstruction.
\<close>

theorem centralized_phase_order:
  fixes procs :: "(ext \<times> PMMG_ParMesh) list"
  assumes "j < length procs"
  shows "\<exists>v1 r1 v2 r2 v3 r3.
           prefix
             (skeleton (trace_of
                (mpi_run n (map (\<lambda>(e, p). PMMG_parmmglib_centralized e p) procs) ! j)))
             [Call check_inputData, Allreduce MPI_MIN v1 r1,
              Call bcast_mesh, Call preprocessMesh, Allreduce MPI_MAX v2 r2,
              Call distribute_mesh, Call parmmglib1, Allreduce MPI_MAX v3 r3,
              Call merge_parmesh, Call parmesh_Free_Comm, Call hashTetra]
         \<and> (Call bcast_mesh \<in> set (trace_of
                (mpi_run n (map (\<lambda>(e, p). PMMG_parmmglib_centralized e p) procs) ! j))
              \<longrightarrow> r1 \<noteq> 0)
         \<and> (Call distribute_mesh \<in> set (trace_of
                (mpi_run n (map (\<lambda>(e, p). PMMG_parmmglib_centralized e p) procs) ! j))
              \<longrightarrow> r2 = PMMG_SUCCESS)
         \<and> (Call merge_parmesh \<in> set (trace_of
                (mpi_run n (map (\<lambda>(e, p). PMMG_parmmglib_centralized e p) procs) ! j))
              \<longrightarrow> r3 \<noteq> PMMG_STRONGFAILURE)"
proof -
  let ?ss = "map (\<lambda>(e, p). PMMG_parmmglib_centralized e p) procs"
  obtain e p where ep: "procs ! j = (e, p)" by (cases "procs ! j") auto
  from assms have "j < length ?ss" by simp
  from mpi_run_ends [OF this, of n] assms ep
  have "ends (PMMG_parmmglib_centralized e p) (mpi_run n ?ss ! j)" by simp
  then show ?thesis by (rule centralized_ends)
qed

text \<open>
  The claim C6 as it is written asks for a reduced, non-aborting outcome before every
  later phase. When the distribution fails on the second of two processes, that process
  returns \<open>PMMG_LOWFAILURE\<close>, while the first one has entered the remeshing on its own
  success and waits in the reduction that follows it.
\<close>

theorem unreduced_distribution_counterexample:
  "mpi_run 4 [PMMG_parmmglib_centralized ext_ok (parmesh_of_rank 0),
              PMMG_parmmglib_centralized ext_distribute_fails (parmesh_of_rank 1)] ! 0
     = Blocked [Call check_inputData, Allreduce MPI_MIN 1 1, Call bcast_mesh,
                Call preprocessMesh, Allreduce MPI_MAX 0 0, Call distribute_mesh,
                Call parmmglib1]
   \<and> returned_code
       (mpi_run 4 [PMMG_parmmglib_centralized ext_ok (parmesh_of_rank 0),
                   PMMG_parmmglib_centralized ext_distribute_fails (parmesh_of_rank 1)] ! 1)
     = Some PMMG_LOWFAILURE
   \<and> trace_of
       (mpi_run 4 [PMMG_parmmglib_centralized ext_ok (parmesh_of_rank 0),
                   PMMG_parmmglib_centralized ext_distribute_fails (parmesh_of_rank 1)] ! 1)
     = [Call check_inputData, Allreduce MPI_MIN 1 1, Call bcast_mesh,
        Call preprocessMesh, Allreduce MPI_MAX 0 0, Call distribute_mesh]"
  by (simp add: driver_defs example_defs ext_distribute_fails_def eval_nat_numeral)

theorem centralized_phase_order_witness:
  "\<exists>v1 r1 v2 r2 v3 r3.
           prefix
             (skeleton (trace_of
                (mpi_run 4 (map (\<lambda>(e, p). PMMG_parmmglib_centralized e p)
                   [(ext_ok, parmesh_of_rank 0), (ext_merge_fails, parmesh_of_rank 1)]) ! 1)))
             [Call check_inputData, Allreduce MPI_MIN v1 r1,
              Call bcast_mesh, Call preprocessMesh, Allreduce MPI_MAX v2 r2,
              Call distribute_mesh, Call parmmglib1, Allreduce MPI_MAX v3 r3,
              Call merge_parmesh, Call parmesh_Free_Comm, Call hashTetra]
         \<and> r1 \<noteq> 0 \<and> r2 = PMMG_SUCCESS \<and> r3 \<noteq> PMMG_STRONGFAILURE"
proof -
  let ?procs = "[(ext_ok, parmesh_of_rank 0), (ext_merge_fails, parmesh_of_rank 1)]"
  let ?out = "mpi_run 4 (map (\<lambda>(e, p). PMMG_parmmglib_centralized e p) ?procs) ! 1"
  have j: "1 < length ?procs" by simp
  have tr: "trace_of ?out =
      [Call check_inputData, Allreduce MPI_MIN 1 1, Call bcast_mesh,
       Call preprocessMesh, Allreduce MPI_MAX 0 0, Call distribute_mesh,
       Call parmmglib1, Allreduce MPI_MAX 0 0, Call merge_parmesh]"
    by (simp add: driver_defs example_defs eval_nat_numeral)
  then have mem: "Call bcast_mesh \<in> set (trace_of ?out)"
    "Call distribute_mesh \<in> set (trace_of ?out)"
    "Call merge_parmesh \<in> set (trace_of ?out)"
    by simp_all
  from centralized_phase_order [OF j, of 4] mem show ?thesis by blast
qed

section \<open>What the entry points release\<close>










end
